theory Spec2Isabelle
  imports Complex_Main
begin

section \<open>Values shared by the server modules\<close>

text \<open>
  Instants are the millisecond counts of \<^verbatim>\<open>Date.getTime()\<close>. Every exported entry point
  of the model takes the instant \<open>now\<close> at which it runs; each \<^verbatim>\<open>new Date()\<close> and
  \<^verbatim>\<open>Date.now()\<close> of one invocation reads that instant.
\<close>

type_synonym instant = int

text \<open>
  A JavaScript \<^verbatim>\<open>number\<close>: the finite doubles are rationals, so the comparisons of the
  source are the comparisons of their values; \<^verbatim>\<open>NaN\<close> and the infinities are kept apart.
\<close>

datatype number = NaN | Num rat | PosInfinity | NegInfinity

section \<open>The repository: \<^verbatim>\<open>server/storage.ts\<close> and \<^verbatim>\<open>shared/schema.ts\<close>\<close>

record Device =
  dev_id :: nat
  deviceId :: string
  dev_name :: string
  mqttBroker :: string
  mqttTopic :: string
  protocol :: string
  username :: "string option"
  password :: "string option"
  status :: string
  lastSeen :: "instant option"
  isActive :: bool
  displayOrder :: int

record DeviceData =
  row_id :: nat
  row_deviceId :: string
  row_timestamp :: instant
  row_alcoholLevel :: number
  row_alertStatus :: string

record InsertDeviceData =
  ins_deviceId :: string
  ins_alcoholLevel :: number
  ins_alertStatus :: string

record DeviceOfflineEvent =
  ev_id :: nat
  ev_deviceId :: string
  offlineAt :: instant

record CleanupSchedule =
  sched_id :: nat
  taskName :: string
  lastExecutionTime :: "instant option"
  nextScheduledTime :: "instant option"
  intervalDays :: int
  executionHour :: int
  executionMinute :: int
  isEnabled :: bool
  createdAt :: instant
  updatedAt :: instant

text \<open>
  \<^verbatim>\<open>Partial<Device>\<close> and \<^verbatim>\<open>Partial<CleanupSchedule>\<close> as the callers build them: a field
  that is \<open>None\<close> is absent from the object literal.
\<close>

record DeviceUpdates =
  upd_status :: "string option"
  upd_lastSeen :: "instant option"

record ScheduleUpdates =
  upd_lastExecutionTime :: "instant option"
  upd_nextScheduledTime :: "instant option"
  upd_isEnabled :: "bool option"

datatype storage_op =
    OpGetDevices | OpUpdateDevice | OpLogDeviceOfflineEvent | OpCreateDeviceData
  | OpClearAllDeviceData | OpGetCleanupSchedule | OpUpdateCleanupSchedule

datatype storage_error = StorageError storage_op

text \<open>
  The tables, the auto-increment counters of \<^verbatim>\<open>MemStorage\<close>, and \<open>faults\<close>: whether each
  of the coming repository calls throws, in call order (a database error of
  \<^verbatim>\<open>DatabaseStorage\<close>); once the list is used up no call throws. A call that throws
  changes no table.
\<close>

record storage =
  devices :: "Device list"
  deviceData :: "DeviceData list"
  offlineEvents :: "DeviceOfflineEvent list"
  cleanupSchedules :: "string \<rightharpoonup> CleanupSchedule"
  currentDeviceDataId :: nat
  currentOfflineEventId :: nat
  faults :: "bool list"

definition attempt :: "storage_op \<Rightarrow> storage \<Rightarrow> (storage_error + unit) \<times> storage" where
  "attempt opn st =
     (case faults st of
        [] \<Rightarrow> (Inr (), st)
      | f # fs \<Rightarrow> (if f then Inl (StorageError opn) else Inr (), st\<lparr>faults := fs\<rparr>))"

definition getDevices :: "storage \<Rightarrow> (storage_error + Device list) \<times> storage" where
  "getDevices st =
     (case attempt OpGetDevices st of
        (Inl e, st1) \<Rightarrow> (Inl e, st1)
      | (Inr _, st1) \<Rightarrow> (Inr (devices st1), st1))"

definition applyDeviceUpdates :: "DeviceUpdates \<Rightarrow> Device \<Rightarrow> Device" where
  "applyDeviceUpdates u d =
     d\<lparr>status := (case upd_status u of Some v \<Rightarrow> v | None \<Rightarrow> status d),
       lastSeen := (case upd_lastSeen u of Some t \<Rightarrow> Some t | None \<Rightarrow> lastSeen d)\<rparr>"

text \<open>\<^verbatim>\<open>updateDevice\<close>: the row with that primary key is rewritten and read back.\<close>

definition updateDevice ::
  "nat \<Rightarrow> DeviceUpdates \<Rightarrow> storage \<Rightarrow> (storage_error + Device option) \<times> storage" where
  "updateDevice i u st =
     (case attempt OpUpdateDevice st of
        (Inl e, st1) \<Rightarrow> (Inl e, st1)
      | (Inr _, st1) \<Rightarrow>
          (let ds = map (\<lambda>d. if dev_id d = i then applyDeviceUpdates u d else d) (devices st1)
           in (Inr (find (\<lambda>d. dev_id d = i) ds), st1\<lparr>devices := ds\<rparr>)))"

definition logDeviceOfflineEvent ::
  "string \<Rightarrow> instant \<Rightarrow> storage \<Rightarrow> (storage_error + unit) \<times> storage" where
  "logDeviceOfflineEvent did stamp st =
     (case attempt OpLogDeviceOfflineEvent st of
        (Inl e, st1) \<Rightarrow> (Inl e, st1)
      | (Inr _, st1) \<Rightarrow>
          (Inr (),
           st1\<lparr>offlineEvents := offlineEvents st1 @
                  [\<lparr>ev_id = currentOfflineEventId st1, ev_deviceId = did, offlineAt = stamp\<rparr>],
               currentOfflineEventId := currentOfflineEventId st1 + 1\<rparr>))"

definition createDeviceData ::
  "InsertDeviceData \<Rightarrow> instant \<Rightarrow> storage \<Rightarrow> (storage_error + DeviceData) \<times> storage" where
  "createDeviceData ins now st =
     (case attempt OpCreateDeviceData st of
        (Inl e, st1) \<Rightarrow> (Inl e, st1)
      | (Inr _, st1) \<Rightarrow>
          (let row = \<lparr>row_id = currentDeviceDataId st1, row_deviceId = ins_deviceId ins,
                      row_timestamp = now, row_alcoholLevel = ins_alcoholLevel ins,
                      row_alertStatus = ins_alertStatus ins\<rparr>
           in (Inr row,
               st1\<lparr>deviceData := deviceData st1 @ [row],
                   currentDeviceDataId := currentDeviceDataId st1 + 1\<rparr>)))"

definition clearAllDeviceData :: "storage \<Rightarrow> (storage_error + nat) \<times> storage" where
  "clearAllDeviceData st =
     (case attempt OpClearAllDeviceData st of
        (Inl e, st1) \<Rightarrow> (Inl e, st1)
      | (Inr _, st1) \<Rightarrow> (Inr (length (deviceData st1)), st1\<lparr>deviceData := []\<rparr>))"

text \<open>
  \<^verbatim>\<open>DatabaseStorage.getCleanupSchedule\<close> catches a database error and returns
  \<^verbatim>\<open>undefined\<close>; it never throws.
\<close>

definition getCleanupSchedule :: "string \<Rightarrow> storage \<Rightarrow> CleanupSchedule option \<times> storage" where
  "getCleanupSchedule name st =
     (case attempt OpGetCleanupSchedule st of
        (Inl e, st1) \<Rightarrow> (None, st1)
      | (Inr _, st1) \<Rightarrow> (cleanupSchedules st1 name, st1))"

definition applyScheduleUpdates :: "ScheduleUpdates \<Rightarrow> instant \<Rightarrow> CleanupSchedule \<Rightarrow> CleanupSchedule" where
  "applyScheduleUpdates u now c =
     c\<lparr>lastExecutionTime :=
         (case upd_lastExecutionTime u of Some t \<Rightarrow> Some t | None \<Rightarrow> lastExecutionTime c),
       nextScheduledTime :=
         (case upd_nextScheduledTime u of Some t \<Rightarrow> Some t | None \<Rightarrow> nextScheduledTime c),
       isEnabled := (case upd_isEnabled u of Some b \<Rightarrow> b | None \<Rightarrow> isEnabled c),
       updatedAt := now\<rparr>"

definition updateCleanupSchedule ::
  "string \<Rightarrow> ScheduleUpdates \<Rightarrow> instant \<Rightarrow> storage \<Rightarrow> (storage_error + unit) \<times> storage" where
  "updateCleanupSchedule name u now st =
     (case attempt OpUpdateCleanupSchedule st of
        (Inl e, st1) \<Rightarrow> (Inl e, st1)
      | (Inr _, st1) \<Rightarrow>
          (case cleanupSchedules st1 name of
             None \<Rightarrow> (Inr (), st1)
           | Some c \<Rightarrow>
               (Inr (),
                st1\<lparr>cleanupSchedules := (cleanupSchedules st1)(name \<mapsto> applyScheduleUpdates u now c)\<rparr>)))"

section \<open>The cleanup scheduler: \<^verbatim>\<open>server/cleanup-scheduler.ts\<close>\<close>

definition CLEANUP_TASK_NAME :: string where
  "CLEANUP_TASK_NAME = ''device_data_cleanup''"

definition CLEANUP_INTERVAL_DAYS :: int where
  "CLEANUP_INTERVAL_DAYS = 2"

definition calculateNextScheduledTimeFromLast :: "instant \<Rightarrow> instant" where
  "calculateNextScheduledTimeFromLast lastExecution =
     lastExecution + CLEANUP_INTERVAL_DAYS * 24 * 60 * 60 * 1000"

text \<open>
  \<^verbatim>\<open>checkAndRunCleanup\<close> returns nothing; the result of the model names the branch that
  ran: an early \<^verbatim>\<open>return\<close>, a boundary that is still ahead, the completed wipe with its
  count, or the error that reached the \<^verbatim>\<open>catch\<close>.
\<close>

datatype tick_result = Skipped | NotDue | Completed nat | Failed storage_error

definition checkAndRunCleanup :: "instant \<Rightarrow> storage \<Rightarrow> tick_result \<times> storage" where
  "checkAndRunCleanup now st =
     (case getCleanupSchedule CLEANUP_TASK_NAME st of
        (None, st1) \<Rightarrow> (Skipped, st1)
      | (Some schedule, st1) \<Rightarrow>
          (if \<not> isEnabled schedule then (Skipped, st1)
           else case nextScheduledTime schedule of
             None \<Rightarrow> (Skipped, st1)
           | Some boundary \<Rightarrow>
               (if now \<ge> boundary then
                  (case clearAllDeviceData st1 of
                     (Inl e, st2) \<Rightarrow> (Failed e, st2)
                   | (Inr deletedCount, st2) \<Rightarrow>
                       (case updateCleanupSchedule CLEANUP_TASK_NAME
                               \<lparr>upd_lastExecutionTime = Some now,
                                upd_nextScheduledTime = Some (calculateNextScheduledTimeFromLast now),
                                upd_isEnabled = None\<rparr> now st2 of
                          (Inl e, st3) \<Rightarrow> (Failed e, st3)
                        | (Inr _, st3) \<Rightarrow> (Completed deletedCount, st3)))
                else (NotDue, st1))))"

text \<open>
  \<^verbatim>\<open>runCleanup\<close> is \<^verbatim>\<open>Promise<number>\<close>: \<open>Inl\<close> would be a rejected promise, \<open>Inr\<close> the
  resolved count. The \<^verbatim>\<open>catch\<close> turns every error of the body into \<^verbatim>\<open>return 0\<close>.
\<close>

definition runCleanup :: "instant \<Rightarrow> storage \<Rightarrow> (storage_error + nat) \<times> storage" where
  "runCleanup now st =
     (case clearAllDeviceData st of
        (Inl e, st1) \<Rightarrow> (Inr 0, st1)
      | (Inr deletedCount, st1) \<Rightarrow>
          (case updateCleanupSchedule CLEANUP_TASK_NAME
                  \<lparr>upd_lastExecutionTime = Some now,
                   upd_nextScheduledTime = Some (calculateNextScheduledTimeFromLast now),
                   upd_isEnabled = None\<rparr> now st1 of
             (Inl e, st2) \<Rightarrow> (Inr 0, st2)
           | (Inr _, st2) \<Rightarrow> (Inr deletedCount, st2)))"

section \<open>The MQTT service: \<^verbatim>\<open>server/mqtt-client.ts\<close>\<close>

subsection \<open>Alert status\<close>

text \<open>\<^verbatim>\<open>x >= k\<close> on numbers: false for \<^verbatim>\<open>NaN\<close>.\<close>

definition number_ge :: "number \<Rightarrow> rat \<Rightarrow> bool" where
  "number_ge x k =
     (case x of NaN \<Rightarrow> False | Num r \<Rightarrow> r \<ge> k | PosInfinity \<Rightarrow> True | NegInfinity \<Rightarrow> False)"

definition calculateAlertStatus :: "number \<Rightarrow> string" where
  "calculateAlertStatus alcoholLevel =
     (if number_ge alcoholLevel 2500 then ''Completely Drunk''
      else if number_ge alcoholLevel 1700 then ''Moderate Drunk''
      else ''Normal'')"

text \<open>\<^verbatim>\<open>x || 0\<close> on numbers: \<^verbatim>\<open>NaN\<close> and zero are falsy.\<close>

definition orZero :: "number \<Rightarrow> number" where
  "orZero x = (if x = NaN \<or> x = Num 0 then Num 0 else x)"

subsection \<open>State of the service\<close>

record BatchedData =
  b_deviceId :: string
  b_alcoholLevel :: number
  b_alertStatus :: string
  b_timestamp :: instant

text \<open>
  The entry of \<^verbatim>\<open>latestReadingsCache\<close> and the object handed to the sensor-data
  broadcaster have the same three fields.
\<close>

record LatestReading =
  alcoholLevel :: number
  timestamp :: instant
  alertStatus :: string

text \<open>
  The client identifier \<^verbatim>\<open>toxishield-server-<deviceId>-<Date.now()>\<close> of
  \<^verbatim>\<open>connectToDevice\<close> and \<^verbatim>\<open>toxishield-server-<deviceId>-v<version>-<Date.now()>\<close> of
  \<^verbatim>\<open>retryWithDifferentProtocol\<close>, by their parts.
\<close>

datatype client_id = InitialClient string instant | RetryClient string nat instant

text \<open>
  The options of \<^verbatim>\<open>mqtt.connect\<close> that the handlers or the claims depend on. The broker
  URL, the credentials, \<^verbatim>\<open>connectTimeout\<close> and \<^verbatim>\<open>keepalive\<close> are handed to the
  library and decide no branch of this module; they are left out.
\<close>

record connect_options =
  clientId :: client_id
  reconnectPeriod :: nat
  protocolVersion :: nat

text \<open>
  The listeners that \<^verbatim>\<open>client.on\<close> attaches to a client, by the function that created
  it and the values its closures hold: the device, and for a retry client the protocol
  version. The source never removes a listener. The \<^verbatim>\<open>message\<close> listener is
  \<^verbatim>\<open>handleMessage\<close> below; the \<^verbatim>\<open>disconnect\<close> listener of \<^verbatim>\<open>connectToDevice\<close>, which
  writes the device \<^verbatim>\<open>waiting\<close>, takes no part in the retries and is left out.
\<close>

datatype listener = InitialListener Device | RetryListener Device nat

text \<open>The callbacks handed to \<^verbatim>\<open>setTimeout\<close>.\<close>

datatype task = Reconnect Device | RetryProtocol Device nat

text \<open>
  What the service does to the outside and to its own buffers, in the order it does it:
  the connection attempts and \<^verbatim>\<open>client.end()\<close> calls, the cache write, the calls of the
  two broadcasters, the push onto the batch buffer, each call of \<^verbatim>\<open>flushBatch\<close> and each
  \<^verbatim>\<open>createDeviceData\<close> it makes (with whether the row was stored), and each rejected
  promise that no handler catches.
\<close>

datatype effect =
    Connect string connect_options
  | ClientEnd client_id
  | CacheSet string LatestReading
  | SensorBroadcast string LatestReading
  | BufferPush BatchedData
  | FlushBatch bool
  | Persist BatchedData bool
  | DeviceBroadcast Device
  | Unhandled storage_error

text \<open>
  The fields of \<^verbatim>\<open>MqttClientService\<close>, whether each module-level broadcaster is set, the
  repository it imports, and the surroundings. \<open>listeners\<close> holds, for every client ever
  created, the listeners attached to it, and \<open>ended\<close> the clients on which
  \<^verbatim>\<open>client.end()\<close> was called; a client is named by its identifier. \<open>connectFaults\<close> tells
  whether each of the coming \<^verbatim>\<open>mqtt.connect\<close> calls throws, in call order (none once the
  list is used up). \<open>timers\<close> are the pending \<^verbatim>\<open>setTimeout\<close> callbacks with their due
  instants, earliest first; \<open>trace\<close> collects the effects. Apart from the connection
  events, which arrive as the surroundings send them, an asynchronous call runs to
  completion where it is made.
\<close>

record service =
  clients :: "string \<rightharpoonup> client_id"
  listeners :: "client_id \<rightharpoonup> listener"
  ended :: "client_id set"
  subscribedTopics :: "string set"
  batchBuffer :: "BatchedData list"
  latestReadingsCache :: "string \<rightharpoonup> LatestReading"
  webSocketBroadcaster :: bool
  sensorDataBroadcaster :: bool
  repo :: storage
  connectFaults :: "bool list"
  timers :: "(instant \<times> task) list"
  trace :: "effect list"

definition BATCH_SIZE :: nat where
  "BATCH_SIZE = 100"

definition DEVICE_OFFLINE_THRESHOLD_MS :: int where
  "DEVICE_OFFLINE_THRESHOLD_MS = 10000"

definition emit :: "effect \<Rightarrow> service \<Rightarrow> service" where
  "emit e s = s\<lparr>trace := trace s @ [e]\<rparr>"

definition on_repo :: "(storage \<Rightarrow> 'a \<times> storage) \<Rightarrow> service \<Rightarrow> 'a \<times> service" where
  "on_repo f s = (case f (repo s) of (r, st) \<Rightarrow> (r, s\<lparr>repo := st\<rparr>))"

text \<open>
  \<^verbatim>\<open>if (webSocketBroadcaster && updatedDevice) { webSocketBroadcaster(updatedDevice); }\<close>
\<close>

definition broadcastDevice :: "Device option \<Rightarrow> service \<Rightarrow> service" where
  "broadcastDevice updatedDevice s =
     (case updatedDevice of
        Some d \<Rightarrow> (if webSocketBroadcaster s then emit (DeviceBroadcast d) s else s)
      | None \<Rightarrow> s)"

subsection \<open>The device timeout monitor\<close>

text \<open>The body of the \<^verbatim>\<open>for\<close> loop of \<^verbatim>\<open>checkDeviceTimeouts\<close>, over the devices read.\<close>

fun timeoutLoop :: "instant \<Rightarrow> Device list \<Rightarrow> service \<Rightarrow> (storage_error + unit) \<times> service" where
  "timeoutLoop now [] s = (Inr (), s)"
| "timeoutLoop now (device # rest) s =
     (if \<not> isActive device then timeoutLoop now rest s
      else
        let lastSeenTime = (case lastSeen device of Some t \<Rightarrow> t | None \<Rightarrow> 0);
            timeSinceLastSeen = now - lastSeenTime
        in if status device = ''online'' \<and> timeSinceLastSeen > DEVICE_OFFLINE_THRESHOLD_MS then
             (case on_repo (updateDevice (dev_id device)
                              \<lparr>upd_status = Some ''offline'', upd_lastSeen = None\<rparr>) s of
                (Inl e, s1) \<Rightarrow> (Inl e, s1)
              | (Inr updatedDevice, s1) \<Rightarrow>
                  (case on_repo (logDeviceOfflineEvent (deviceId device) now) s1 of
                     (Inl e, s2) \<Rightarrow> (Inl e, s2)
                   | (Inr _, s2) \<Rightarrow> timeoutLoop now rest (broadcastDevice updatedDevice s2)))
           else timeoutLoop now rest s)"

text \<open>The \<^verbatim>\<open>catch\<close> logs the error; what was written before it stays written.\<close>

definition checkDeviceTimeouts :: "instant \<Rightarrow> service \<Rightarrow> service" where
  "checkDeviceTimeouts now s =
     (case on_repo getDevices s of
        (Inl e, s1) \<Rightarrow> s1
      | (Inr ds, s1) \<Rightarrow> snd (timeoutLoop now ds s1))"

subsection \<open>The batch buffer\<close>

text \<open>
  The \<^verbatim>\<open>for\<close> loop of \<^verbatim>\<open>flushBatch\<close> with its two accumulators \<^verbatim>\<open>successCount\<close> and
  \<^verbatim>\<open>failedItems\<close>. The loop is suspended at each \<^verbatim>\<open>await storage.createDeviceData\<close>;
  \<open>arrivals\<close> lists, await by await, the readings that invocations of
  \<^verbatim>\<open>handleMessage\<close> running in the meantime push onto \<^verbatim>\<open>this.batchBuffer\<close> (none once the
  list is used up).
\<close>

fun flushLoop ::
  "instant \<Rightarrow> BatchedData list \<Rightarrow> BatchedData list list \<Rightarrow> nat \<Rightarrow> BatchedData list \<Rightarrow> service
     \<Rightarrow> nat \<times> BatchedData list \<times> service" where
  "flushLoop now [] arrivals successCount failedItems s = (successCount, failedItems, s)"
| "flushLoop now (d # rest) arrivals successCount failedItems s =
     (case on_repo (createDeviceData
                      \<lparr>ins_deviceId = b_deviceId d, ins_alcoholLevel = b_alcoholLevel d,
                       ins_alertStatus = b_alertStatus d\<rparr> now) s of
        (r, s1) \<Rightarrow>
          (let s2 = s1\<lparr>batchBuffer := batchBuffer s1 @ (case arrivals of [] \<Rightarrow> [] | a # _ \<Rightarrow> a)\<rparr>
           in case r of
                Inr _ \<Rightarrow>
                  flushLoop now rest (tl arrivals) (successCount + 1) failedItems
                    (emit (Persist d True) s2)
              | Inl e \<Rightarrow>
                  flushLoop now rest (tl arrivals) successCount (failedItems @ [d])
                    (emit (Persist d False) s2)))"

definition flushBatch :: "bool \<Rightarrow> BatchedData list list \<Rightarrow> instant \<Rightarrow> service \<Rightarrow> nat \<times> service" where
  "flushBatch retryOnError arrivals now s0 =
     (let s = emit (FlushBatch retryOnError) s0 in
      if batchBuffer s = [] then (0, s)
      else
        let batchToFlush = batchBuffer s;
            s1 = s\<lparr>batchBuffer := []\<rparr>
        in case flushLoop now batchToFlush arrivals 0 [] s1 of
             (successCount, failedItems, s2) \<Rightarrow>
               (successCount,
                if failedItems \<noteq> [] \<and> retryOnError
                then s2\<lparr>batchBuffer := failedItems @ batchBuffer s2\<rparr>
                else s2))"

subsection \<open>Incoming messages\<close>

text \<open>
  A payload as \<^verbatim>\<open>handleMessage\<close> sees it through the two built-ins it calls.
  \<open>parsed\<close> is the outcome of \<^verbatim>\<open>JSON.parse(messageStr)\<close>: \<open>None\<close> when it throws,
  otherwise \<^verbatim>\<open>null\<close>, a value whose \<^verbatim>\<open>typeof\<close> is not \<^verbatim>\<open>'object'\<close> (a number, a
  string, a boolean), or an object or array with its own properties; each property
  carries what \<^verbatim>\<open>parseFloat\<close> makes of its value, a number or a thrown
  \<^verbatim>\<open>TypeError\<close>. \<open>rawNumber\<close> is \<^verbatim>\<open>parseFloat(messageStr)\<close>.
\<close>

datatype conversion = AsNumber number | ConversionThrows

datatype parsed_json = JsonNull | JsonPrimitive | JsonObject "(string \<times> conversion) list"

record mqtt_message =
  parsed :: "parsed_json option"
  rawNumber :: number

text \<open>\<^verbatim>\<open>parseFloat(v) || 0\<close>\<close>

definition parseFloatOrZero :: "conversion \<Rightarrow> conversion" where
  "parseFloatOrZero v = (case v of AsNumber x \<Rightarrow> AsNumber (orZero x) | ConversionThrows \<Rightarrow> ConversionThrows)"

text \<open>
  The four field names in the order the source tests them against \<^verbatim>\<open>undefined\<close>; a
  value parsed from JSON is never \<^verbatim>\<open>undefined\<close>, so a property that is present wins.
\<close>

definition extractAlcoholLevel :: "parsed_json \<Rightarrow> conversion" where
  "extractAlcoholLevel parsedMessage =
     (case parsedMessage of
        JsonObject props \<Rightarrow>
          (case map_of props ''alcohol_level'' of
             Some v \<Rightarrow> parseFloatOrZero v
           | None \<Rightarrow>
          (case map_of props ''Index'' of
             Some v \<Rightarrow> parseFloatOrZero v
           | None \<Rightarrow>
          (case map_of props ''level'' of
             Some v \<Rightarrow> parseFloatOrZero v
           | None \<Rightarrow>
          (case map_of props ''value'' of
             Some v \<Rightarrow> parseFloatOrZero v
           | None \<Rightarrow> AsNumber (Num 0)))))
      | _ \<Rightarrow> AsNumber (Num 0))"

text \<open>
  The inner \<^verbatim>\<open>try\<close>/\<^verbatim>\<open>catch\<close> of \<^verbatim>\<open>handleMessage\<close>: \<open>None\<close> is the early
  \<^verbatim>\<open>return\<close> on an invalid message, \<open>Some x\<close> is \<^verbatim>\<open>data.alcohol_level = x\<close>.
\<close>

definition decodeMessage :: "mqtt_message \<Rightarrow> number option" where
  "decodeMessage message =
     (case (case parsed message of
              Some parsedMessage \<Rightarrow> extractAlcoholLevel parsedMessage
            | None \<Rightarrow> ConversionThrows) of
        AsNumber x \<Rightarrow> Some x
      | ConversionThrows \<Rightarrow> (if rawNumber message = NaN then None else Some (rawNumber message)))"

definition handleMessage :: "string \<Rightarrow> mqtt_message \<Rightarrow> Device \<Rightarrow> instant \<Rightarrow> service \<Rightarrow> service" where
  "handleMessage topic message device now s =
     (case decodeMessage message of
        None \<Rightarrow> s
      | Some level \<Rightarrow>
          (let alcoholLevel = orZero level;
               alertStatus = calculateAlertStatus alcoholLevel;
               reading = \<lparr>alcoholLevel = alcoholLevel, timestamp = now, alertStatus = alertStatus\<rparr>;
               s1 = emit (CacheSet (deviceId device) reading)
                      (s\<lparr>latestReadingsCache := (latestReadingsCache s)(deviceId device \<mapsto> reading)\<rparr>);
               s2 = (if sensorDataBroadcaster s1
                     then emit (SensorBroadcast (deviceId device) reading) s1 else s1);
               item = \<lparr>b_deviceId = deviceId device, b_alcoholLevel = alcoholLevel,
                       b_alertStatus = alertStatus, b_timestamp = now\<rparr>;
               s3 = emit (BufferPush item) (s2\<lparr>batchBuffer := batchBuffer s2 @ [item]\<rparr>);
               s4 = (if length (batchBuffer s3) \<ge> BATCH_SIZE
                     then snd (flushBatch False [] now s3) else s3)
           in case on_repo (updateDevice (dev_id device)
                              \<lparr>upd_status = Some ''online'', upd_lastSeen = Some now\<rparr>) s4 of
                (Inl e, s5) \<Rightarrow> s5
              | (Inr updatedDevice, s5) \<Rightarrow> broadcastDevice updatedDevice s5))"

subsection \<open>Connections and the protocol retries\<close>

text \<open>\<^verbatim>\<open>String.prototype.includes\<close>\<close>

fun str_includes :: "string \<Rightarrow> string \<Rightarrow> bool" where
  "str_includes [] sub = (sub = [])"
| "str_includes (c # cs) sub = (take (length sub) (c # cs) = sub \<or> str_includes cs sub)"

definition takeConnectFault :: "service \<Rightarrow> bool \<times> service" where
  "takeConnectFault s =
     (case connectFaults s of [] \<Rightarrow> (False, s) | f # fs \<Rightarrow> (f, s\<lparr>connectFaults := fs\<rparr>))"

text \<open>\<^verbatim>\<open>client.end()\<close>: the listeners stay attached.\<close>

definition endClient :: "client_id \<Rightarrow> service \<Rightarrow> service" where
  "endClient c s = emit (ClientEnd c) (s\<lparr>ended := insert c (ended s)\<rparr>)"

text \<open>\<^verbatim>\<open>setTimeout(callback, delay)\<close> at instant \<open>now\<close>.\<close>

fun enqueueTimer :: "instant \<times> task \<Rightarrow> (instant \<times> task) list \<Rightarrow> (instant \<times> task) list" where
  "enqueueTimer t [] = [t]"
| "enqueueTimer t (u # us) = (if fst u \<le> fst t then u # enqueueTimer t us else t # u # us)"

definition setTimeout :: "task \<Rightarrow> int \<Rightarrow> instant \<Rightarrow> service \<Rightarrow> service" where
  "setTimeout callback delay now s = s\<lparr>timers := enqueueTimer (now + delay, callback) (timers s)\<rparr>"

text \<open>
  The block that the source repeats wherever a connection is given up: the device is
  written \<^verbatim>\<open>offline\<close> with \<^verbatim>\<open>lastSeen\<close>, the offline event is logged, the updated device
  is broadcast. It stops at the first call that throws.
\<close>

definition setOfflineAndLog :: "Device \<Rightarrow> instant \<Rightarrow> service \<Rightarrow> (storage_error + unit) \<times> service" where
  "setOfflineAndLog device now s =
     (case on_repo (updateDevice (dev_id device)
                      \<lparr>upd_status = Some ''offline'', upd_lastSeen = Some now\<rparr>) s of
        (Inl e, s1) \<Rightarrow> (Inl e, s1)
      | (Inr updatedDevice, s1) \<Rightarrow>
          (case on_repo (logDeviceOfflineEvent (deviceId device) now) s1 of
             (Inl e, s2) \<Rightarrow> (Inl e, s2)
           | (Inr _, s2) \<Rightarrow> (Inr (), broadcastDevice updatedDevice s2)))"

text \<open>
  The \<^verbatim>\<open>connect\<close> handler with its subscribe callback; the promise of
  \<^verbatim>\<open>updateDevice\<close> has a \<^verbatim>\<open>then\<close> and no \<^verbatim>\<open>catch\<close>.
\<close>

definition onConnect :: "Device \<Rightarrow> bool \<Rightarrow> instant \<Rightarrow> service \<Rightarrow> service" where
  "onConnect device subscribed now s =
     (if \<not> subscribed then s
      else
        let s1 = s\<lparr>subscribedTopics := insert (mqttTopic device) (subscribedTopics s)\<rparr>
        in case on_repo (updateDevice (dev_id device)
                           \<lparr>upd_status = Some ''online'', upd_lastSeen = Some now\<rparr>) s1 of
             (Inl e, s2) \<Rightarrow> emit (Unhandled e) s2
           | (Inr updatedDevice, s2) \<Rightarrow> broadcastDevice updatedDevice s2)"

text \<open>
  \<^verbatim>\<open>retryWithDifferentProtocol\<close> up to the end of its synchronous part: past the last
  version it gives the device up; otherwise it creates the client, attaches the listeners
  and stores the client. A throw of \<^verbatim>\<open>mqtt.connect\<close> ends in the empty \<^verbatim>\<open>catch\<close>.
\<close>

definition retryWithDifferentProtocol :: "Device \<Rightarrow> nat \<Rightarrow> instant \<Rightarrow> service \<Rightarrow> service" where
  "retryWithDifferentProtocol device version now s =
     (if version > 5 then
        (case setOfflineAndLog device now s of
           (Inl e, s1) \<Rightarrow> emit (Unhandled e) s1
         | (Inr _, s1) \<Rightarrow> s1)
      else
        let options = \<lparr>clientId = RetryClient (deviceId device) version now,
                       reconnectPeriod = 0, protocolVersion = version\<rparr>
        in case takeConnectFault s of
             (True, s1) \<Rightarrow> s1
           | (False, s1) \<Rightarrow>
               (let s2 = emit (Connect (deviceId device) options) s1
                in s2\<lparr>listeners := (listeners s2)(clientId options \<mapsto> RetryListener device version),
                      clients := (clients s2)(deviceId device \<mapsto> clientId options)\<rparr>))"

text \<open>
  The \<^verbatim>\<open>error\<close> listener of a retry client (lines 404 to 432), for an error with
  \<^verbatim>\<open>error.message = msg\<close> on client \<open>c\<close>.
\<close>

definition onRetryError :: "Device \<Rightarrow> nat \<Rightarrow> client_id \<Rightarrow> string \<Rightarrow> instant \<Rightarrow> service \<Rightarrow> service" where
  "onRetryError device version c msg now s =
     (let s1 = endClient c s
      in if str_includes msg ''Invalid header flag bits'' \<or> str_includes msg ''protocol''
         then setTimeout (RetryProtocol device (version + 1)) 2000 now s1
         else snd (setOfflineAndLog device now s1))"

text \<open>\<^verbatim>\<open>connectToDevice\<close>, likewise up to the end of its synchronous part.\<close>

definition connectToDevice :: "Device \<Rightarrow> instant \<Rightarrow> service \<Rightarrow> service" where
  "connectToDevice device now s =
     (let protocol = (if protocol device = [] then ''WS'' else protocol device);
          options = \<lparr>clientId = InitialClient (deviceId device) now, reconnectPeriod = 5000,
                     protocolVersion = (if protocol = ''WS'' \<or> protocol = ''WSS'' then 4 else 3)\<rparr>
      in case takeConnectFault s of
           (True, s1) \<Rightarrow> s1
         | (False, s1) \<Rightarrow>
             (let s2 = emit (Connect (deviceId device) options) s1
              in s2\<lparr>listeners := (listeners s2)(clientId options \<mapsto> InitialListener device),
                    clients := (clients s2)(deviceId device \<mapsto> clientId options)\<rparr>))"

text \<open>
  The \<^verbatim>\<open>error\<close> listener of a client of \<^verbatim>\<open>connectToDevice\<close> (lines 258 to 298): the
  timeout test comes first, then the protocol test, then the device is given up.
\<close>

definition onInitialError :: "Device \<Rightarrow> client_id \<Rightarrow> string \<Rightarrow> instant \<Rightarrow> service \<Rightarrow> service" where
  "onInitialError device c msg now s =
     (if str_includes msg ''connack timeout'' \<or> str_includes msg ''timeout'' then
        (let s1 = endClient c s
         in setTimeout (Reconnect device) 5000 now
              (s1\<lparr>clients := (clients s1)(deviceId device := None)\<rparr>))
      else if str_includes msg ''Invalid header flag bits'' \<or> str_includes msg ''protocol'' then
        retryWithDifferentProtocol device 4 now (endClient c s)
      else snd (setOfflineAndLog device now s))"

text \<open>
  An \<^verbatim>\<open>error\<close> or a \<^verbatim>\<open>connect\<close> event on client \<open>c\<close> runs the listener attached to it,
  whether or not the client has been ended.
\<close>

definition clientError :: "client_id \<Rightarrow> string \<Rightarrow> instant \<Rightarrow> service \<Rightarrow> service" where
  "clientError c msg now s =
     (case listeners s c of
        None \<Rightarrow> s
      | Some (InitialListener device) \<Rightarrow> onInitialError device c msg now s
      | Some (RetryListener device version) \<Rightarrow> onRetryError device version c msg now s)"

definition clientConnect :: "client_id \<Rightarrow> bool \<Rightarrow> instant \<Rightarrow> service \<Rightarrow> service" where
  "clientConnect c subscribed now s =
     (case listeners s c of
        None \<Rightarrow> s
      | Some (InitialListener device) \<Rightarrow> onConnect device subscribed now s
      | Some (RetryListener device version) \<Rightarrow> onConnect device subscribed now s)"

text \<open>One pending timer fires, at its due instant.\<close>

definition fire :: "instant \<times> task \<Rightarrow> service \<Rightarrow> service" where
  "fire t s =
     (case snd t of
        Reconnect device \<Rightarrow> connectToDevice device (fst t) s
      | RetryProtocol device version \<Rightarrow> retryWithDifferentProtocol device version (fst t) s)"

text \<open>
  What happens to the service from outside, one occurrence after the other: an
  \<^verbatim>\<open>error\<close> event with its message or a \<^verbatim>\<open>connect\<close> event (with whether the
  subscription that follows succeeds) on a client at an instant, or the earliest pending
  timer firing.
\<close>

datatype occurrence =
    ErrorEvent client_id string instant
  | ConnectEvent client_id bool instant
  | TimerFires

definition occur :: "occurrence \<Rightarrow> service \<Rightarrow> service" where
  "occur x s =
     (case x of
        ErrorEvent c msg now \<Rightarrow> clientError c msg now s
      | ConnectEvent c subscribed now \<Rightarrow> clientConnect c subscribed now s
      | TimerFires \<Rightarrow> (case timers s of [] \<Rightarrow> s | t # ts \<Rightarrow> fire t (s\<lparr>timers := ts\<rparr>)))"

fun runOccurrences :: "occurrence list \<Rightarrow> service \<Rightarrow> service" where
  "runOccurrences [] s = s"
| "runOccurrences (x # xs) s = runOccurrences xs (occur x s)"

subsection \<open>Notions used to state the properties\<close>

text \<open>
  The test of the sweep on one device: it is active, \<^verbatim>\<open>online\<close>, and was last seen more
  than the threshold before \<open>now\<close> (a device never seen counts from instant 0).
\<close>

definition timedOut :: "instant \<Rightarrow> Device \<Rightarrow> bool" where
  "timedOut now d \<longleftrightarrow>
     isActive d \<and> status d = ''online'' \<and>
     now - (case lastSeen d of Some t \<Rightarrow> t | None \<Rightarrow> 0) > DEVICE_OFFLINE_THRESHOLD_MS"

text \<open>
  Whether each of the next \<open>n\<close> repository calls throws, read off \<open>faults\<close>: the calls
  beyond the end of the list do not throw.
\<close>

fun callFaults :: "nat \<Rightarrow> bool list \<Rightarrow> bool list" where
  "callFaults 0 fs = []"
| "callFaults (Suc n) [] = False # callFaults n []"
| "callFaults (Suc n) (f # fs) = f # callFaults n fs"

text \<open>
  The condition of claim C5, in the claim's words: structured decoding yields none of the
  recognized field names, and the raw payload does not parse as a number.
\<close>

definition hasRecognizedField :: "parsed_json \<Rightarrow> bool" where
  "hasRecognizedField p =
     (case p of
        JsonObject props \<Rightarrow>
          map_of props ''alcohol_level'' \<noteq> None \<or> map_of props ''Index'' \<noteq> None \<or>
          map_of props ''level'' \<noteq> None \<or> map_of props ''value'' \<noteq> None
      | _ \<Rightarrow> False)"

definition noLevelObtainable :: "mqtt_message \<Rightarrow> bool" where
  "noLevelObtainable message \<longleftrightarrow>
     (case parsed message of None \<Rightarrow> True | Some p \<Rightarrow> \<not> hasRecognizedField p) \<and>
     rawNumber message = NaN"

text \<open>The clients created by the connection attempts of a trace, in order.\<close>

fun connectionAttempts :: "effect list \<Rightarrow> client_id list" where
  "connectionAttempts [] = []"
| "connectionAttempts (Connect d options # es) = clientId options # connectionAttempts es"
| "connectionAttempts (e # es) = connectionAttempts es"

section \<open>States used to exercise the theorems\<close>

definition example_schedule :: CleanupSchedule where
  "example_schedule =
     \<lparr>sched_id = 1, taskName = CLEANUP_TASK_NAME, lastExecutionTime = None,
      nextScheduledTime = Some 1000, intervalDays = 2, executionHour = 0, executionMinute = 0,
      isEnabled = True, createdAt = 0, updatedAt = 0\<rparr>"

definition example_storage :: "bool list \<Rightarrow> storage" where
  "example_storage fs =
     \<lparr>devices = [],
      deviceData = [\<lparr>row_id = 1, row_deviceId = ''D1'', row_timestamp = 10,
                     row_alcoholLevel = Num 1800, row_alertStatus = ''Moderate Drunk''\<rparr>],
      offlineEvents = [],
      cleanupSchedules = [CLEANUP_TASK_NAME \<mapsto> example_schedule],
      currentDeviceDataId = 2, currentOfflineEventId = 1, faults = fs\<rparr>"

definition example_device :: "nat \<Rightarrow> string \<Rightarrow> string \<Rightarrow> instant option \<Rightarrow> bool \<Rightarrow> Device" where
  "example_device i did st seen active =
     \<lparr>dev_id = i, deviceId = did, dev_name = ''Breathalyser'', mqttBroker = ''broker.local:1883'',
      mqttTopic = ''alcohol/'' @ did, protocol = ''MQTT'', username = None, password = None,
      status = st, lastSeen = seen, isActive = active, displayOrder = int i\<rparr>"

definition example_devices :: "Device list" where
  "example_devices =
     [example_device 1 ''D1'' ''online'' (Some 1000) True,
      example_device 2 ''D2'' ''waiting'' (Some 1000) True,
      example_device 3 ''D3'' ''online'' (Some 1000) False,
      example_device 4 ''D4'' ''offline'' None True]"

definition example_service :: "Device list \<Rightarrow> BatchedData list \<Rightarrow> bool list \<Rightarrow> bool list \<Rightarrow> service" where
  "example_service ds buffer fs cs =
     \<lparr>clients = Map.empty, listeners = Map.empty, ended = {}, subscribedTopics = {},
      batchBuffer = buffer,
      latestReadingsCache = Map.empty, webSocketBroadcaster = True, sensorDataBroadcaster = True,
      repo = (example_storage fs)\<lparr>devices := ds\<rparr>,
      connectFaults = cs, timers = [], trace = []\<rparr>"

definition example_reading :: "string \<Rightarrow> rat \<Rightarrow> BatchedData" where
  "example_reading did level =
     \<lparr>b_deviceId = did, b_alcoholLevel = Num level,
      b_alertStatus = calculateAlertStatus (Num level), b_timestamp = 10\<rparr>"

text \<open>
  The payloads \<^verbatim>\<open>{"alcohol_level": <level>}\<close>, \<^verbatim>\<open>{}\<close> and \<^verbatim>\<open>hello\<close> as
  \<^verbatim>\<open>handleMessage\<close> sees them.
\<close>

definition level_message :: "rat \<Rightarrow> mqtt_message" where
  "level_message level =
     \<lparr>parsed = Some (JsonObject [(''alcohol_level'', AsNumber (Num level))]), rawNumber = NaN\<rparr>"

definition empty_object_message :: mqtt_message where
  "empty_object_message = \<lparr>parsed = Some (JsonObject []), rawNumber = NaN\<rparr>"

definition text_message :: mqtt_message where
  "text_message = \<lparr>parsed = None, rawNumber = NaN\<rparr>"

text \<open>
  A run against a broker that answers every \<^verbatim>\<open>CONNECT\<close> of device \<^verbatim>\<open>D1\<close> with
  \<^verbatim>\<open>Invalid header flag bits\<close>. \<open>rejected_ladder\<close> is the run up to the moment the device
  is given up: each client gets the rejection 100 ms after it was created, and the two
  timers fire. \<open>late_timeouts\<close> is what follows: no client ever received a
  \<^verbatim>\<open>CONNACK\<close>, so 10 s (\<^verbatim>\<open>connectTimeout\<close>) after its creation each of the three
  ended clients emits \<^verbatim>\<open>connack timeout\<close>; then the pending timer fires and the client it
  creates is rejected like the others.
\<close>

definition ladder_device :: Device where
  "ladder_device = example_device 1 ''D1'' ''online'' (Some 1000) True"

definition rejected_ladder :: "occurrence list" where
  "rejected_ladder =
     [ErrorEvent (InitialClient ''D1'' 0) ''Invalid header flag bits'' 100,
      ErrorEvent (RetryClient ''D1'' 4 100) ''Invalid header flag bits'' 200,
      TimerFires,
      ErrorEvent (RetryClient ''D1'' 5 2200) ''Invalid header flag bits'' 2300,
      TimerFires]"

definition late_timeouts :: "occurrence list" where
  "late_timeouts =
     [ErrorEvent (InitialClient ''D1'' 0) ''connack timeout'' 10000,
      ErrorEvent (RetryClient ''D1'' 4 100) ''connack timeout'' 10100,
      ErrorEvent (RetryClient ''D1'' 5 2200) ''connack timeout'' 12200,
      TimerFires,
      ErrorEvent (InitialClient ''D1'' 15000) ''Invalid header flag bits'' 15100]"

section \<open>Properties of the cleanup scheduler\<close>

lemma attempt_tables:
  "attempt opn st = (r, st') \<Longrightarrow>
     devices st' = devices st \<and> deviceData st' = deviceData st \<and>
     offlineEvents st' = offlineEvents st \<and> cleanupSchedules st' = cleanupSchedules st \<and>
     currentDeviceDataId st' = currentDeviceDataId st \<and>
     currentOfflineEventId st' = currentOfflineEventId st"
  by (auto simp: attempt_def split: list.splits if_splits)

lemma interval_ms: "CLEANUP_INTERVAL_DAYS * 24 * 60 * 60 * 1000 = 172800 * 1000"
  by (simp add: CLEANUP_INTERVAL_DAYS_def)

lemma clearAll_schedules:
  "clearAllDeviceData st = (r, st') \<Longrightarrow> cleanupSchedules st' = cleanupSchedules st"
  by (auto simp: clearAllDeviceData_def split: prod.splits sum.splits dest: attempt_tables)

lemma getSchedule_result:
  "getCleanupSchedule name st = (r, st') \<Longrightarrow>
     cleanupSchedules st' = cleanupSchedules st \<and> deviceData st' = deviceData st \<and>
     (r = None \<or> r = cleanupSchedules st name)"
  by (auto simp: getCleanupSchedule_def split: prod.splits sum.splits dest: attempt_tables)

lemma updateSchedule_result:
  "updateCleanupSchedule name u now st = (r, st') \<Longrightarrow>
     deviceData st' = deviceData st \<and>
     (case r of
        Inl e \<Rightarrow> cleanupSchedules st' = cleanupSchedules st
      | Inr _ \<Rightarrow>
          (case cleanupSchedules st name of
             None \<Rightarrow> cleanupSchedules st' = cleanupSchedules st
           | Some c \<Rightarrow> cleanupSchedules st' = (cleanupSchedules st)(name \<mapsto> applyScheduleUpdates u now c)))"
  by (auto simp: updateCleanupSchedule_def split: prod.splits sum.splits option.splits
      dest: attempt_tables)

lemma runCleanup_recorded:
  assumes "cleanupSchedules (snd (runCleanup now st)) CLEANUP_TASK_NAME = Some c"
    and "cleanupSchedules st CLEANUP_TASK_NAME \<noteq> Some c"
  shows "lastExecutionTime c = Some now \<and>
         nextScheduledTime c = Some (calculateNextScheduledTimeFromLast now)"
  using assms
  by (auto simp: runCleanup_def applyScheduleUpdates_def
      split: prod.splits sum.splits option.splits
      dest!: clearAll_schedules updateSchedule_result)

lemma tick_recorded:
  assumes "cleanupSchedules (snd (checkAndRunCleanup now st)) CLEANUP_TASK_NAME = Some c"
    and "cleanupSchedules st CLEANUP_TASK_NAME \<noteq> Some c"
  shows "lastExecutionTime c = Some now \<and>
         nextScheduledTime c = Some (calculateNextScheduledTimeFromLast now)"
  using assms
  by (auto simp: checkAndRunCleanup_def applyScheduleUpdates_def
      split: prod.splits sum.splits option.splits if_splits
      dest!: clearAll_schedules updateSchedule_result getSchedule_result)

lemma attempt_ok:
  "True \<notin> set (faults st) \<Longrightarrow> attempt opn st = (Inr (), st\<lparr>faults := tl (faults st)\<rparr>)"
  by (cases "faults st") (auto simp: attempt_def)

lemma no_fault_tl: "True \<notin> set xs \<Longrightarrow> True \<notin> set (tl xs)"
  by (cases xs) auto

lemma tick_when_due:
  assumes "cleanupSchedules st CLEANUP_TASK_NAME = Some c0" "isEnabled c0"
    "nextScheduledTime c0 = Some boundary" "boundary \<le> now" "True \<notin> set (faults st)"
  shows "fst (checkAndRunCleanup now st) = Completed (length (deviceData st)) \<and>
         deviceData (snd (checkAndRunCleanup now st)) = [] \<and>
         cleanupSchedules (snd (checkAndRunCleanup now st)) CLEANUP_TASK_NAME =
           Some (c0\<lparr>lastExecutionTime := Some now,
                    nextScheduledTime := Some (calculateNextScheduledTimeFromLast now),
                    updatedAt := now\<rparr>)"
  using assms
  by (simp add: checkAndRunCleanup_def getCleanupSchedule_def clearAllDeviceData_def
      updateCleanupSchedule_def attempt_ok no_fault_tl applyScheduleUpdates_def)

lemma manual_when_healthy:
  assumes "cleanupSchedules st CLEANUP_TASK_NAME = Some c0" "True \<notin> set (faults st)"
  shows "fst (runCleanup now st) = Inr (length (deviceData st)) \<and>
         deviceData (snd (runCleanup now st)) = [] \<and>
         cleanupSchedules (snd (runCleanup now st)) CLEANUP_TASK_NAME =
           Some (c0\<lparr>lastExecutionTime := Some now,
                    nextScheduledTime := Some (calculateNextScheduledTimeFromLast now),
                    updatedAt := now\<rparr>)"
  using assms
  by (simp add: runCleanup_def clearAllDeviceData_def
      updateCleanupSchedule_def attempt_ok no_fault_tl applyScheduleUpdates_def)

text \<open>
  Claim C1. Whenever a cleanup run, the scheduled tick \<^verbatim>\<open>checkAndRunCleanup\<close> or the manual
  \<^verbatim>\<open>runCleanup\<close>, records a last execution time \<open>T\<close> in the schedule, \<open>T\<close> is the instant
  of the run and the next scheduled time recorded with it is \<open>T\<close> plus
  \<^verbatim>\<open>CLEANUP_INTERVAL_DAYS\<close> times 24 hours, that is \<open>T + 172800\<close> seconds. The old boundary
  plays no part: a tick that is due at \<open>now\<close>, however long after the boundary, records
  \<open>now\<close> and \<open>now + 172800\<close> seconds when the repository works, and so does a manual run.
\<close>
theorem next_run_is_execution_plus_interval:
  "CLEANUP_INTERVAL_DAYS * 24 * 60 * 60 * 1000 = 172800 * 1000 \<and>
   (\<forall>c T. cleanupSchedules (snd (checkAndRunCleanup now st)) CLEANUP_TASK_NAME = Some c \<and>
          cleanupSchedules st CLEANUP_TASK_NAME \<noteq> Some c \<and> lastExecutionTime c = Some T
      \<longrightarrow> T = now \<and> nextScheduledTime c = Some (T + 172800 * 1000)) \<and>
   (\<forall>c T. cleanupSchedules (snd (runCleanup now st)) CLEANUP_TASK_NAME = Some c \<and>
          cleanupSchedules st CLEANUP_TASK_NAME \<noteq> Some c \<and> lastExecutionTime c = Some T
      \<longrightarrow> T = now \<and> nextScheduledTime c = Some (T + 172800 * 1000)) \<and>
   (\<forall>c0 boundary. cleanupSchedules st CLEANUP_TASK_NAME = Some c0 \<and> isEnabled c0 \<and>
          nextScheduledTime c0 = Some boundary \<and> boundary \<le> now \<and> True \<notin> set (faults st)
      \<longrightarrow> (\<exists>c. cleanupSchedules (snd (checkAndRunCleanup now st)) CLEANUP_TASK_NAME = Some c \<and>
               lastExecutionTime c = Some now \<and>
               nextScheduledTime c = Some (now + 172800 * 1000))) \<and>
   (\<forall>c0. cleanupSchedules st CLEANUP_TASK_NAME = Some c0 \<and> True \<notin> set (faults st)
      \<longrightarrow> (\<exists>c. cleanupSchedules (snd (runCleanup now st)) CLEANUP_TASK_NAME = Some c \<and>
               lastExecutionTime c = Some now \<and>
               nextScheduledTime c = Some (now + 172800 * 1000)))"
proof (intro conjI allI impI)
  show "CLEANUP_INTERVAL_DAYS * 24 * 60 * 60 * 1000 = 172800 * 1000"
    by (rule interval_ms)
next
  fix c T
  assume "cleanupSchedules (snd (checkAndRunCleanup now st)) CLEANUP_TASK_NAME = Some c \<and>
          cleanupSchedules st CLEANUP_TASK_NAME \<noteq> Some c \<and> lastExecutionTime c = Some T"
  with tick_recorded [of now st c]
  show "T = now" and "nextScheduledTime c = Some (T + 172800 * 1000)"
    by (simp_all add: calculateNextScheduledTimeFromLast_def CLEANUP_INTERVAL_DAYS_def)
next
  fix c T
  assume "cleanupSchedules (snd (runCleanup now st)) CLEANUP_TASK_NAME = Some c \<and>
          cleanupSchedules st CLEANUP_TASK_NAME \<noteq> Some c \<and> lastExecutionTime c = Some T"
  with runCleanup_recorded [of now st c]
  show "T = now" and "nextScheduledTime c = Some (T + 172800 * 1000)"
    by (simp_all add: calculateNextScheduledTimeFromLast_def CLEANUP_INTERVAL_DAYS_def)
next
  fix c0 boundary
  assume "cleanupSchedules st CLEANUP_TASK_NAME = Some c0 \<and> isEnabled c0 \<and>
          nextScheduledTime c0 = Some boundary \<and> boundary \<le> now \<and> True \<notin> set (faults st)"
  then show "\<exists>c. cleanupSchedules (snd (checkAndRunCleanup now st)) CLEANUP_TASK_NAME = Some c \<and>
               lastExecutionTime c = Some now \<and>
               nextScheduledTime c = Some (now + 172800 * 1000)"
    using tick_when_due [of st c0 boundary now]
    by (simp add: calculateNextScheduledTimeFromLast_def CLEANUP_INTERVAL_DAYS_def)
next
  fix c0
  assume "cleanupSchedules st CLEANUP_TASK_NAME = Some c0 \<and> True \<notin> set (faults st)"
  then show "\<exists>c. cleanupSchedules (snd (runCleanup now st)) CLEANUP_TASK_NAME = Some c \<and>
               lastExecutionTime c = Some now \<and>
               nextScheduledTime c = Some (now + 172800 * 1000)"
    using manual_when_healthy [of st c0 now]
    by (simp add: calculateNextScheduledTimeFromLast_def CLEANUP_INTERVAL_DAYS_def)
qed

theorem next_run_is_execution_plus_interval_witness:
  "(\<exists>c. cleanupSchedules (snd (checkAndRunCleanup 500000 (example_storage []))) CLEANUP_TASK_NAME = Some c \<and>
        cleanupSchedules (example_storage []) CLEANUP_TASK_NAME \<noteq> Some c \<and>
        lastExecutionTime c = Some 500000 \<and> nextScheduledTime c = Some 173300000) \<and>
   (\<exists>c. cleanupSchedules (snd (runCleanup 700 (example_storage []))) CLEANUP_TASK_NAME = Some c \<and>
        cleanupSchedules (example_storage []) CLEANUP_TASK_NAME \<noteq> Some c \<and>
        lastExecutionTime c = Some 700 \<and> nextScheduledTime c = Some 172800700)"
proof -
  have h1: "cleanupSchedules (example_storage []) CLEANUP_TASK_NAME = Some example_schedule \<and>
            isEnabled example_schedule \<and> nextScheduledTime example_schedule = Some 1000 \<and>
            (1000::int) \<le> 500000 \<and> True \<notin> set (faults (example_storage []))"
    by (simp add: example_storage_def example_schedule_def)
  have h2: "cleanupSchedules (example_storage []) CLEANUP_TASK_NAME = Some example_schedule \<and>
            True \<notin> set (faults (example_storage []))"
    by (simp add: example_storage_def)
  have old: "cleanupSchedules (example_storage []) CLEANUP_TASK_NAME = Some example_schedule"
    "lastExecutionTime example_schedule = None"
    by (simp_all add: example_storage_def example_schedule_def)
  note t = next_run_is_execution_plus_interval
  \<comment> \<open>a due tick, 499 seconds late, and a manual run record the instant of the run\<close>
  from t [of 500000 "example_storage []"] h1
  obtain c1 where c1:
    "cleanupSchedules (snd (checkAndRunCleanup 500000 (example_storage []))) CLEANUP_TASK_NAME = Some c1"
    "lastExecutionTime c1 = Some 500000"
    by blast
  from t [of 700 "example_storage []"] h2
  obtain c2 where c2:
    "cleanupSchedules (snd (runCleanup 700 (example_storage []))) CLEANUP_TASK_NAME = Some c2"
    "lastExecutionTime c2 = Some 700"
    by blast
  from c1(2) c2(2) old have new:
    "cleanupSchedules (example_storage []) CLEANUP_TASK_NAME \<noteq> Some c1"
    "cleanupSchedules (example_storage []) CLEANUP_TASK_NAME \<noteq> Some c2"
    by auto
  \<comment> \<open>what was recorded with them\<close>
  from t [of 500000 "example_storage []"] c1 new(1)
  have n1: "nextScheduledTime c1 = Some (500000 + 172800 * 1000)" by blast
  from t [of 700 "example_storage []"] c2 new(2)
  have n2: "nextScheduledTime c2 = Some (700 + 172800 * 1000)" by blast
  from c1 c2 new n1 n2 show ?thesis by simp
qed

lemma clearAll_result:
  "clearAllDeviceData st = (r, st') \<Longrightarrow>
     cleanupSchedules st' = cleanupSchedules st \<and>
     (case r of
        Inl e \<Rightarrow> e = StorageError OpClearAllDeviceData \<and> deviceData st' = deviceData st
      | Inr n \<Rightarrow> n = length (deviceData st) \<and> deviceData st' = [])"
  by (auto simp: clearAllDeviceData_def attempt_def split: list.splits if_splits)

lemma updateSchedule_error:
  "updateCleanupSchedule name u now st = (Inl e, st') \<Longrightarrow>
     e = StorageError OpUpdateCleanupSchedule"
  by (auto simp: updateCleanupSchedule_def attempt_def
      split: list.splits if_splits option.splits)

lemma getSchedule_Some:
  "getCleanupSchedule name st = (Some c, st') \<Longrightarrow> cleanupSchedules st name = Some c"
  by (auto simp: getCleanupSchedule_def attempt_def split: list.splits if_splits)

lemma getSchedule_readable:
  "take 1 (faults st) \<noteq> [True] \<Longrightarrow>
     \<exists>st'. getCleanupSchedule name st = (cleanupSchedules st name, st')"
  by (cases "faults st") (auto simp: getCleanupSchedule_def attempt_def)

lemma tick_due_unfold:
  assumes "getCleanupSchedule CLEANUP_TASK_NAME st = (Some c, st1)" "isEnabled c"
    "nextScheduledTime c = Some b" "b \<le> now"
  shows "checkAndRunCleanup now st =
    (case clearAllDeviceData st1 of
       (Inl e, st2) \<Rightarrow> (Failed e, st2)
     | (Inr deletedCount, st2) \<Rightarrow>
         (case updateCleanupSchedule CLEANUP_TASK_NAME
                 \<lparr>upd_lastExecutionTime = Some now,
                  upd_nextScheduledTime = Some (calculateNextScheduledTimeFromLast now),
                  upd_isEnabled = None\<rparr> now st2 of
            (Inl e, st3) \<Rightarrow> (Failed e, st3)
          | (Inr _, st3) \<Rightarrow> (Completed deletedCount, st3)))"
  using assms by (simp add: checkAndRunCleanup_def)

lemma tick_failed_wipe:
  assumes "fst (checkAndRunCleanup now st) = Failed (StorageError OpClearAllDeviceData)"
  shows "cleanupSchedules (snd (checkAndRunCleanup now st)) = cleanupSchedules st \<and>
         deviceData (snd (checkAndRunCleanup now st)) = deviceData st \<and>
         (\<exists>c b. cleanupSchedules st CLEANUP_TASK_NAME = Some c \<and> isEnabled c \<and>
                nextScheduledTime c = Some b \<and> b \<le> now)"
proof -
  obtain r st1 where g: "getCleanupSchedule CLEANUP_TASK_NAME st = (r, st1)"
    by (cases "getCleanupSchedule CLEANUP_TASK_NAME st")
  from getSchedule_result [OF g]
  have g1: "cleanupSchedules st1 = cleanupSchedules st" "deviceData st1 = deviceData st"
    by simp_all
  from assms g obtain c b where c: "r = Some c" "isEnabled c" "nextScheduledTime c = Some b"
    "b \<le> now"
    by (auto simp: checkAndRunCleanup_def split: option.splits if_splits)
  from g c have g2: "cleanupSchedules st CLEANUP_TASK_NAME = Some c"
    by (simp add: getSchedule_Some)
  note unf = tick_due_unfold [OF g [unfolded c(1)] c(2-4)]
  obtain w st2 where w: "clearAllDeviceData st1 = (w, st2)"
    by (cases "clearAllDeviceData st1")
  note w1 = clearAll_result [OF w]
  have "\<exists>e. w = Inl e"
  proof (cases w)
    case (Inl e)
    then show ?thesis by simp
  next
    case (Inr n)
    with assms unf w show ?thesis
      by (auto split: prod.splits sum.splits dest: updateSchedule_error)
  qed
  then obtain e where e: "w = Inl e" ..
  with unf w have "snd (checkAndRunCleanup now st) = st2" by simp
  with w1 e g1 g2 c show ?thesis by auto
qed

lemma tick_attempts_wipe:
  assumes "cleanupSchedules st CLEANUP_TASK_NAME = Some c" "isEnabled c"
    "nextScheduledTime c = Some b" "b \<le> now" "take 1 (faults st) \<noteq> [True]"
  shows "fst (checkAndRunCleanup now st) \<notin> {Skipped, NotDue}"
proof -
  from getSchedule_readable [OF assms(5), of CLEANUP_TASK_NAME] assms(1)
  obtain st1 where "getCleanupSchedule CLEANUP_TASK_NAME st = (Some c, st1)"
    by auto
  from tick_due_unfold [OF this assms(2-4)] show ?thesis
    by (auto split: prod.splits sum.splits)
qed

text \<open>
  Claim C9. When the wipe of a scheduled tick fails with a storage error, that is, the
  error caught by the tick is the one thrown by \<^verbatim>\<open>clearAllDeviceData\<close>, the schedules
  and the readings are as they were before the tick. A later tick that finds the schedule
  so, and can read it, is due again and reaches the wipe again; it completes the wipe
  when the repository works.
\<close>
theorem failed_wipe_keeps_schedule:
  "fst (checkAndRunCleanup now st) = Failed (StorageError OpClearAllDeviceData) \<longrightarrow>
     cleanupSchedules (snd (checkAndRunCleanup now st)) = cleanupSchedules st \<and>
     deviceData (snd (checkAndRunCleanup now st)) = deviceData st \<and>
     (\<forall>later st2.
        now \<le> later \<and> cleanupSchedules st2 = cleanupSchedules (snd (checkAndRunCleanup now st)) \<and>
        take 1 (faults st2) \<noteq> [True]
        \<longrightarrow> fst (checkAndRunCleanup later st2) \<notin> {Skipped, NotDue} \<and>
            (True \<notin> set (faults st2) \<longrightarrow>
               fst (checkAndRunCleanup later st2) = Completed (length (deviceData st2)) \<and>
               deviceData (snd (checkAndRunCleanup later st2)) = []))"
proof (intro impI conjI allI)
  assume f: "fst (checkAndRunCleanup now st) = Failed (StorageError OpClearAllDeviceData)"
  note r = tick_failed_wipe [OF f]
  from r show "cleanupSchedules (snd (checkAndRunCleanup now st)) = cleanupSchedules st"
    by simp
  from r show "deviceData (snd (checkAndRunCleanup now st)) = deviceData st"
    by simp
  from r obtain c b where c: "cleanupSchedules st CLEANUP_TASK_NAME = Some c" "isEnabled c"
    "nextScheduledTime c = Some b" "b \<le> now" by blast
  fix later and st2 :: storage
  assume a: "now \<le> later \<and>
     cleanupSchedules st2 = cleanupSchedules (snd (checkAndRunCleanup now st)) \<and>
     take 1 (faults st2) \<noteq> [True]"
  with r c have c2: "cleanupSchedules st2 CLEANUP_TASK_NAME = Some c" "b \<le> later"
    by simp_all
  from a c c2 show "fst (checkAndRunCleanup later st2) \<notin> {Skipped, NotDue}"
    using tick_attempts_wipe [of st2 c b later] by simp
  assume "True \<notin> set (faults st2)"
  with c c2 show "fst (checkAndRunCleanup later st2) = Completed (length (deviceData st2))"
    and "deviceData (snd (checkAndRunCleanup later st2)) = []"
    using tick_when_due [of st2 c b later] by simp_all
qed

theorem failed_wipe_keeps_schedule_witness:
  "fst (checkAndRunCleanup 500000 (example_storage [False, True])) =
     Failed (StorageError OpClearAllDeviceData) \<and>
   cleanupSchedules (snd (checkAndRunCleanup 500000 (example_storage [False, True]))) =
     cleanupSchedules (example_storage [False, True]) \<and>
   fst (checkAndRunCleanup 560000 (example_storage [])) = Completed 1"
proof -
  have h: "fst (checkAndRunCleanup 500000 (example_storage [False, True])) =
     Failed (StorageError OpClearAllDeviceData)"
    by (simp add: checkAndRunCleanup_def getCleanupSchedule_def clearAllDeviceData_def
        attempt_def example_storage_def example_schedule_def)
  have s: "cleanupSchedules (example_storage []) = cleanupSchedules (example_storage [False, True])"
    by (simp add: example_storage_def)
  have g: "(500000::int) \<le> 560000 \<and> take 1 (faults (example_storage [])) \<noteq> [True] \<and>
           True \<notin> set (faults (example_storage []))"
    by (simp add: example_storage_def)
  have l: "length (deviceData (example_storage [])) = 1"
    by (simp add: example_storage_def)
  from failed_wipe_keeps_schedule [of 500000 "example_storage [False, True]"] h
  have k: "cleanupSchedules (snd (checkAndRunCleanup 500000 (example_storage [False, True]))) =
       cleanupSchedules (example_storage [False, True])"
    and "\<forall>later st2.
        500000 \<le> later \<and> cleanupSchedules st2 =
           cleanupSchedules (snd (checkAndRunCleanup 500000 (example_storage [False, True]))) \<and>
        take 1 (faults st2) \<noteq> [True]
        \<longrightarrow> fst (checkAndRunCleanup later st2) \<notin> {Skipped, NotDue} \<and>
            (True \<notin> set (faults st2) \<longrightarrow>
               fst (checkAndRunCleanup later st2) = Completed (length (deviceData st2)) \<and>
               deviceData (snd (checkAndRunCleanup later st2)) = [])"
    by blast+
  then have "fst (checkAndRunCleanup 560000 (example_storage [])) =
      Completed (length (deviceData (example_storage [])))"
    using s g by metis
  with h k l show ?thesis by simp
qed

text \<open>
  Claim C10. \<^verbatim>\<open>runCleanup\<close> never rejects: its result is always a count. When the wipe
  throws it resolves to 0 and no table has changed, the schedule included; when the wipe
  succeeds and the schedule update throws it resolves to 0 with the readings gone and the
  schedule unchanged; and a wipe of an empty table that succeeds resolves to 0 as well, so
  the count 0 does not tell the caller which of these happened.
\<close>
theorem runCleanup_never_rejects:
  "(\<exists>n. fst (runCleanup now st) = Inr n) \<and>
   (\<forall>fs. faults st = True # fs \<longrightarrow> runCleanup now st = (Inr 0, st\<lparr>faults := fs\<rparr>)) \<and>
   (\<forall>fs. faults st = False # True # fs \<longrightarrow>
      fst (runCleanup now st) = Inr 0 \<and>
      cleanupSchedules (snd (runCleanup now st)) = cleanupSchedules st \<and>
      deviceData (snd (runCleanup now st)) = []) \<and>
   (deviceData st = [] \<and> True \<notin> set (faults st) \<longrightarrow> fst (runCleanup now st) = Inr 0)"
proof (intro conjI allI impI)
  show "\<exists>n. fst (runCleanup now st) = Inr n"
    by (auto simp: runCleanup_def split: prod.splits sum.splits)
next
  fix fs assume "faults st = True # fs"
  then show "runCleanup now st = (Inr 0, st\<lparr>faults := fs\<rparr>)"
    by (simp add: runCleanup_def clearAllDeviceData_def attempt_def)
next
  fix fs assume f: "faults st = False # True # fs"
  then show "fst (runCleanup now st) = Inr 0"
    and "cleanupSchedules (snd (runCleanup now st)) = cleanupSchedules st"
    and "deviceData (snd (runCleanup now st)) = []"
    by (simp_all add: runCleanup_def clearAllDeviceData_def updateCleanupSchedule_def attempt_def)
next
  assume "deviceData st = [] \<and> True \<notin> set (faults st)"
  then show "fst (runCleanup now st) = Inr 0"
    by (auto simp: runCleanup_def clearAllDeviceData_def updateCleanupSchedule_def attempt_ok
        no_fault_tl split: option.splits)
qed

theorem runCleanup_never_rejects_witness:
  "runCleanup 700 (example_storage [True]) = (Inr 0, example_storage []) \<and>
   fst (runCleanup 700 (example_storage [False, True])) = Inr 0 \<and>
   deviceData (snd (runCleanup 700 (example_storage [False, True]))) = [] \<and>
   fst (runCleanup 700 ((example_storage [])\<lparr>deviceData := []\<rparr>)) = Inr 0"
proof -
  note t = runCleanup_never_rejects
  have a: "faults (example_storage [True]) = True # []"
    and b: "faults (example_storage [False, True]) = False # True # []"
    and c: "deviceData ((example_storage [])\<lparr>deviceData := []\<rparr>) = [] \<and>
            True \<notin> set (faults ((example_storage [])\<lparr>deviceData := []\<rparr>))"
    and d: "(example_storage [True])\<lparr>faults := []\<rparr> = example_storage []"
    by (simp_all add: example_storage_def)
  from t [of 700 "example_storage [True]"] a d
  have 1: "runCleanup 700 (example_storage [True]) = (Inr 0, example_storage [])" by simp
  from t [of 700 "example_storage [False, True]"] b
  have 2: "fst (runCleanup 700 (example_storage [False, True])) = Inr 0 \<and>
           deviceData (snd (runCleanup 700 (example_storage [False, True]))) = []" by simp
  from t [of 700 "(example_storage [])\<lparr>deviceData := []\<rparr>"] c
  have 3: "fst (runCleanup 700 ((example_storage [])\<lparr>deviceData := []\<rparr>)) = Inr 0" by blast
  from 1 2 3 show ?thesis by simp
qed

section \<open>Properties of the device timeout monitor\<close>

lemma updateDevice_ok:
  "True \<notin> set (faults st) \<Longrightarrow>
     updateDevice i u st =
       (Inr (find (\<lambda>d. dev_id d = i)
               (map (\<lambda>d. if dev_id d = i then applyDeviceUpdates u d else d) (devices st))),
        st\<lparr>faults := tl (faults st),
           devices := map (\<lambda>d. if dev_id d = i then applyDeviceUpdates u d else d) (devices st)\<rparr>)"
  by (simp add: updateDevice_def attempt_ok Let_def)

lemma logDeviceOfflineEvent_ok:
  "True \<notin> set (faults st) \<Longrightarrow>
     logDeviceOfflineEvent did stamp st =
       (Inr (),
        st\<lparr>faults := tl (faults st),
           offlineEvents := offlineEvents st @
             [\<lparr>ev_id = currentOfflineEventId st, ev_deviceId = did, offlineAt = stamp\<rparr>],
           currentOfflineEventId := currentOfflineEventId st + 1\<rparr>)"
  by (simp add: logDeviceOfflineEvent_def attempt_ok)

lemma getDevices_ok:
  "True \<notin> set (faults st) \<Longrightarrow>
     getDevices st = (Inr (devices st), st\<lparr>faults := tl (faults st)\<rparr>)"
  by (simp add: getDevices_def attempt_ok)

lemma broadcastDevice_repo [simp]: "repo (broadcastDevice u s) = repo s"
  by (simp add: broadcastDevice_def emit_def split: option.splits)

lemma set_offline_only:
  "applyDeviceUpdates \<lparr>upd_status = Some ''offline'', upd_lastSeen = None\<rparr> d = d\<lparr>status := ''offline''\<rparr>"
  by (simp add: applyDeviceUpdates_def)

lemma on_repo_update_offline_ok:
  assumes "True \<notin> set (faults (repo s))"
  shows "\<exists>s1 u. on_repo (updateDevice i \<lparr>upd_status = Some ''offline'', upd_lastSeen = None\<rparr>) s
                   = (Inr u, s1) \<and>
           True \<notin> set (faults (repo s1)) \<and>
           devices (repo s1) =
             map (\<lambda>x. if dev_id x = i then x\<lparr>status := ''offline''\<rparr> else x) (devices (repo s)) \<and>
           offlineEvents (repo s1) = offlineEvents (repo s)"
  using assms
  by (simp add: on_repo_def updateDevice_ok no_fault_tl set_offline_only cong: if_cong)

lemma on_repo_log_ok:
  assumes "True \<notin> set (faults (repo s))"
  shows "\<exists>s1 ev. on_repo (logDeviceOfflineEvent did stamp) s = (Inr (), s1) \<and>
           True \<notin> set (faults (repo s1)) \<and>
           devices (repo s1) = devices (repo s) \<and>
           offlineEvents (repo s1) = offlineEvents (repo s) @ [ev] \<and>
           ev_deviceId ev = did \<and> offlineAt ev = stamp"
  using assms
  by (simp add: on_repo_def logDeviceOfflineEvent_ok no_fault_tl)

lemma timeoutLoop_healthy:
  assumes "True \<notin> set (faults (repo s))"
  shows "\<exists>s' new. timeoutLoop now ds s = (Inr (), s') \<and> True \<notin> set (faults (repo s')) \<and>
     devices (repo s') =
       map (\<lambda>d. if dev_id d \<in> dev_id ` {x \<in> set ds. timedOut now x}
                 then d\<lparr>status := ''offline''\<rparr> else d) (devices (repo s)) \<and>
     offlineEvents (repo s') = offlineEvents (repo s) @ new \<and>
     map ev_deviceId new = map deviceId (filter (timedOut now) ds)"
  using assms
proof (induction ds arbitrary: s)
  case Nil
  then show ?case by simp
next
  case (Cons d ds)
  show ?case
  proof (cases "timedOut now d")
    case False
    then have step: "timeoutLoop now (d # ds) s = timeoutLoop now ds s"
      by (auto simp: timedOut_def Let_def)
    from False have "{x \<in> set (d # ds). timedOut now x} = {x \<in> set ds. timedOut now x}"
      by auto
    with Cons.IH [OF Cons.prems] step False show ?thesis by simp
  next
    case True
    from on_repo_update_offline_ok [OF Cons.prems, of "dev_id d"] obtain s1 u where
      u: "on_repo (updateDevice (dev_id d) \<lparr>upd_status = Some ''offline'', upd_lastSeen = None\<rparr>) s
            = (Inr u, s1)"
      "True \<notin> set (faults (repo s1))"
      "devices (repo s1) =
         map (\<lambda>x. if dev_id x = dev_id d then x\<lparr>status := ''offline''\<rparr> else x) (devices (repo s))"
      "offlineEvents (repo s1) = offlineEvents (repo s)"
      by blast
    from on_repo_log_ok [OF u(2), of "deviceId d" now] obtain s2 ev where
      l: "on_repo (logDeviceOfflineEvent (deviceId d) now) s1 = (Inr (), s2)"
      "True \<notin> set (faults (repo s2))"
      "devices (repo s2) = devices (repo s1)"
      "offlineEvents (repo s2) = offlineEvents (repo s1) @ [ev]"
      "ev_deviceId ev = deviceId d"
      by blast
    define s3 where "s3 = broadcastDevice u s2"
    from True u(1) l(1) have step: "timeoutLoop now (d # ds) s = timeoutLoop now ds s3"
      by (simp add: timedOut_def Let_def s3_def)
    have ok3: "True \<notin> set (faults (repo s3))"
      using l(2) by (simp add: s3_def)
    from Cons.IH [OF ok3] obtain s' new where
      r: "timeoutLoop now ds s3 = (Inr (), s')" "True \<notin> set (faults (repo s'))"
      "devices (repo s') =
         map (\<lambda>d. if dev_id d \<in> dev_id ` {x \<in> set ds. timedOut now x}
                   then d\<lparr>status := ''offline''\<rparr> else d) (devices (repo s3))"
      "offlineEvents (repo s') = offlineEvents (repo s3) @ new"
      "map ev_deviceId new = map deviceId (filter (timedOut now) ds)"
      by blast
    have d3: "devices (repo s3) =
         map (\<lambda>x. if dev_id x = dev_id d then x\<lparr>status := ''offline''\<rparr> else x) (devices (repo s))"
      and e3: "offlineEvents (repo s3) = offlineEvents (repo s) @ [ev]"
      using u(3,4) l(3,4) by (simp_all add: s3_def)
    have set_eq: "dev_id ` {x \<in> set (d # ds). timedOut now x} =
                  insert (dev_id d) (dev_id ` {x \<in> set ds. timedOut now x})"
      using True by auto
    have devs: "devices (repo s') =
       map (\<lambda>x. if dev_id x \<in> dev_id ` {x \<in> set (d # ds). timedOut now x}
                 then x\<lparr>status := ''offline''\<rparr> else x) (devices (repo s))"
      unfolding r(3) d3 set_eq by (simp add: comp_def)
    have evs: "offlineEvents (repo s') = offlineEvents (repo s) @ (ev # new)"
      using r(4) e3 by simp
    have ids: "map ev_deviceId (ev # new) = map deviceId (filter (timedOut now) (d # ds))"
      using r(5) True l(5) by simp
    from step r(1) have "timeoutLoop now (d # ds) s = (Inr (), s')" by simp
    with r(2) devs evs ids show ?thesis
      by (intro exI [of _ s'] exI [of _ "ev # new"]) simp
  qed
qed


lemma filter_eq_distinct:
  "distinct xs \<Longrightarrow> x \<in> set xs \<Longrightarrow> filter (\<lambda>y. y = x) xs = [x]"
  by (induction xs) (auto simp: filter_empty_conv)

lemma events_for_device:
  assumes "distinct (map deviceId D)" "d \<in> set D"
    and "map ev_deviceId new = map deviceId (filter P D)"
  shows "length (filter (\<lambda>e. ev_deviceId e = deviceId d) new) = (if P d then 1 else 0)"
proof -
  from assms(1) have dist: "distinct D" and inj: "inj_on deviceId (set D)"
    by (simp_all add: distinct_map)
  have "length (filter (\<lambda>e. ev_deviceId e = deviceId d) new) =
        length (filter (\<lambda>k. k = deviceId d) (map ev_deviceId new))"
    by (simp add: filter_map comp_def)
  also have "\<dots> = length (filter (\<lambda>x. deviceId x = deviceId d) (filter P D))"
    by (simp add: assms(3) filter_map comp_def)
  also have "filter (\<lambda>x. deviceId x = deviceId d) (filter P D) =
             filter P (filter (\<lambda>x. x = d) D)"
    using inj assms(2) by (auto simp: inj_on_def intro!: filter_cong)
  also have "\<dots> = filter P [d]"
    using dist assms(2) by (simp add: filter_eq_distinct)
  finally show ?thesis by simp
qed

lemma sweep_healthy:
  assumes "True \<notin> set (faults (repo s))"
  shows "\<exists>new. devices (repo (checkDeviceTimeouts now s)) =
       map (\<lambda>d. if dev_id d \<in> dev_id ` {x \<in> set (devices (repo s)). timedOut now x}
                 then d\<lparr>status := ''offline''\<rparr> else d) (devices (repo s)) \<and>
     offlineEvents (repo (checkDeviceTimeouts now s)) = offlineEvents (repo s) @ new \<and>
     map ev_deviceId new = map deviceId (filter (timedOut now) (devices (repo s)))"
proof -
  define s1 where "s1 = s\<lparr>repo := (repo s)\<lparr>faults := tl (faults (repo s))\<rparr>\<rparr>"
  from assms have g: "on_repo getDevices s = (Inr (devices (repo s)), s1)"
    by (simp add: on_repo_def getDevices_ok s1_def)
  have ok1: "True \<notin> set (faults (repo s1))"
    using assms by (simp add: s1_def no_fault_tl)
  from timeoutLoop_healthy [OF ok1, of now "devices (repo s)"] obtain s' new where
    r: "timeoutLoop now (devices (repo s)) s1 = (Inr (), s')"
    "devices (repo s') =
       map (\<lambda>d. if dev_id d \<in> dev_id ` {x \<in> set (devices (repo s)). timedOut now x}
                 then d\<lparr>status := ''offline''\<rparr> else d) (devices (repo s1))"
    "offlineEvents (repo s') = offlineEvents (repo s1) @ new"
    "map ev_deviceId new = map deviceId (filter (timedOut now) (devices (repo s)))"
    by blast
  from g r(1) have "checkDeviceTimeouts now s = s'"
    by (simp add: checkDeviceTimeouts_def)
  with r(2-4) show ?thesis
    by (intro exI [of _ new]) (simp add: s1_def)
qed

text \<open>
  Claim C2. One sweep of the timeout monitor over a repository whose calls succeed and whose
  devices have distinct keys and distinct device identifiers. A device that is active and
  \<^verbatim>\<open>online\<close> and was last seen more than 10000 milliseconds before \<open>now\<close> has its status
  set to \<^verbatim>\<open>offline\<close>, nothing else of it changes, and exactly one of the offline events the
  sweep appends bears its identifier. A device that is \<^verbatim>\<open>offline\<close> or \<^verbatim>\<open>waiting\<close>, or that
  is not active, is left as it was, and none of the appended events bears its identifier.
\<close>
theorem sweep_demotes_stale_online_devices:
  assumes "True \<notin> set (faults (repo s))"
    and "distinct (map dev_id (devices (repo s)))"
    and "distinct (map deviceId (devices (repo s)))"
    and "i < length (devices (repo s))"
    and "d = devices (repo s) ! i"
  shows "\<exists>new.
     offlineEvents (repo (checkDeviceTimeouts now s)) = offlineEvents (repo s) @ new \<and>
     length (devices (repo (checkDeviceTimeouts now s))) = length (devices (repo s)) \<and>
     (isActive d \<and> status d = ''online'' \<and> (\<exists>t. lastSeen d = Some t \<and> now - t > 10000)
        \<longrightarrow> devices (repo (checkDeviceTimeouts now s)) ! i = d\<lparr>status := ''offline''\<rparr> \<and>
            length (filter (\<lambda>e. ev_deviceId e = deviceId d) new) = 1) \<and>
     (status d = ''offline'' \<or> status d = ''waiting'' \<or> \<not> isActive d
        \<longrightarrow> devices (repo (checkDeviceTimeouts now s)) ! i = d \<and>
            filter (\<lambda>e. ev_deviceId e = deviceId d) new = [])"
proof -
  let ?D = "devices (repo s)"
  from sweep_healthy [OF assms(1), of now] obtain new where
    r: "devices (repo (checkDeviceTimeouts now s)) =
       map (\<lambda>d. if dev_id d \<in> dev_id ` {x \<in> set ?D. timedOut now x}
                 then d\<lparr>status := ''offline''\<rparr> else d) ?D"
    "offlineEvents (repo (checkDeviceTimeouts now s)) = offlineEvents (repo s) @ new"
    "map ev_deviceId new = map deviceId (filter (timedOut now) ?D)"
    by blast
  from assms(4,5) have mem: "d \<in> set ?D" by simp
  from assms(2) have inj: "inj_on dev_id (set ?D)" by (simp add: distinct_map)
  have hit: "dev_id d \<in> dev_id ` {x \<in> set ?D. timedOut now x} \<longleftrightarrow> timedOut now d"
    using inj mem by (auto simp: inj_on_def)
  have at_i: "devices (repo (checkDeviceTimeouts now s)) ! i =
              (if timedOut now d then d\<lparr>status := ''offline''\<rparr> else d)"
    using assms(4,5) hit by (simp add: r(1))
  note cnt = events_for_device [OF assms(3) mem r(3)]
  have stale: "timedOut now d"
    if "isActive d \<and> status d = ''online'' \<and> (\<exists>t. lastSeen d = Some t \<and> now - t > 10000)"
    using that by (auto simp: timedOut_def DEVICE_OFFLINE_THRESHOLD_MS_def)
  have fresh: "\<not> timedOut now d"
    if "status d = ''offline'' \<or> status d = ''waiting'' \<or> \<not> isActive d"
    using that by (auto simp: timedOut_def)
  show ?thesis
  proof (intro exI [of _ new] conjI impI)
    show "offlineEvents (repo (checkDeviceTimeouts now s)) = offlineEvents (repo s) @ new"
      by (rule r(2))
    show "length (devices (repo (checkDeviceTimeouts now s))) = length ?D"
      by (simp add: r(1))
  next
    assume a: "isActive d \<and> status d = ''online'' \<and> (\<exists>t. lastSeen d = Some t \<and> now - t > 10000)"
    from stale [OF a] at_i
    show "devices (repo (checkDeviceTimeouts now s)) ! i = d\<lparr>status := ''offline''\<rparr>" by simp
    from stale [OF a] cnt
    show "length (filter (\<lambda>e. ev_deviceId e = deviceId d) new) = 1" by simp
  next
    assume b: "status d = ''offline'' \<or> status d = ''waiting'' \<or> \<not> isActive d"
    from fresh [OF b] at_i
    show "devices (repo (checkDeviceTimeouts now s)) ! i = d" by simp
    from fresh [OF b] cnt
    show "filter (\<lambda>e. ev_deviceId e = deviceId d) new = []" by simp
  qed
qed


theorem sweep_demotes_stale_online_devices_witness:
  "devices (repo (checkDeviceTimeouts 20000 (example_service example_devices [] [] []))) ! 0 =
     (example_device 1 ''D1'' ''online'' (Some 1000) True)\<lparr>status := ''offline''\<rparr> \<and>
   devices (repo (checkDeviceTimeouts 20000 (example_service example_devices [] [] []))) ! 1 =
     example_device 2 ''D2'' ''waiting'' (Some 1000) True \<and>
   devices (repo (checkDeviceTimeouts 20000 (example_service example_devices [] [] []))) ! 2 =
     example_device 3 ''D3'' ''online'' (Some 1000) False \<and>
   (\<exists>new. offlineEvents (repo (checkDeviceTimeouts 20000 (example_service example_devices [] [] []))) =
           offlineEvents (repo (example_service example_devices [] [] [])) @ new \<and>
          length (filter (\<lambda>e. ev_deviceId e = ''D1'') new) = 1)"
proof -
  let ?s = "example_service example_devices [] [] []"
  have ok: "True \<notin> set (faults (repo ?s))"
    and ids: "distinct (map dev_id (devices (repo ?s)))"
    and dids: "distinct (map deviceId (devices (repo ?s)))"
    and len: "0 < length (devices (repo ?s))" "1 < length (devices (repo ?s))"
      "2 < length (devices (repo ?s))"
    and d0: "example_device 1 ''D1'' ''online'' (Some 1000) True = devices (repo ?s) ! 0"
    and d1: "example_device 2 ''D2'' ''waiting'' (Some 1000) True = devices (repo ?s) ! 1"
    and d2: "example_device 3 ''D3'' ''online'' (Some 1000) False = devices (repo ?s) ! 2"
    by (simp_all add: example_service_def example_storage_def example_devices_def
        example_device_def)
  note t = sweep_demotes_stale_online_devices [OF ok ids dids]
  have a: "isActive (example_device 1 ''D1'' ''online'' (Some 1000) True) \<and>
           status (example_device 1 ''D1'' ''online'' (Some 1000) True) = ''online'' \<and>
           (\<exists>t. lastSeen (example_device 1 ''D1'' ''online'' (Some 1000) True) = Some t \<and>
                20000 - t > 10000)"
    and b: "status (example_device 2 ''D2'' ''waiting'' (Some 1000) True) = ''waiting''"
    and c: "\<not> isActive (example_device 3 ''D3'' ''online'' (Some 1000) False)"
    and n: "deviceId (example_device 1 ''D1'' ''online'' (Some 1000) True) = ''D1''"
    by (simp_all add: example_device_def)
  from t [OF len(1) d0, of 20000] a n have 0:
    "devices (repo (checkDeviceTimeouts 20000 ?s)) ! 0 =
       (example_device 1 ''D1'' ''online'' (Some 1000) True)\<lparr>status := ''offline''\<rparr> \<and>
     (\<exists>new. offlineEvents (repo (checkDeviceTimeouts 20000 ?s)) = offlineEvents (repo ?s) @ new \<and>
            length (filter (\<lambda>e. ev_deviceId e = ''D1'') new) = 1)"
    by auto
  from t [OF len(2) d1, of 20000] b have 1:
    "devices (repo (checkDeviceTimeouts 20000 ?s)) ! 1 =
       example_device 2 ''D2'' ''waiting'' (Some 1000) True"
    by blast
  from t [OF len(3) d2, of 20000] c have 2:
    "devices (repo (checkDeviceTimeouts 20000 ?s)) ! 2 =
       example_device 3 ''D3'' ''online'' (Some 1000) False"
    by blast
  from 0 1 2 show ?thesis by blast
qed

section \<open>Properties of the batch buffer\<close>

lemma emit_fields [simp]:
  "trace (emit e s) = trace s @ [e]" "repo (emit e s) = repo s"
  "batchBuffer (emit e s) = batchBuffer s" "timers (emit e s) = timers s"
  "connectFaults (emit e s) = connectFaults s"
  "latestReadingsCache (emit e s) = latestReadingsCache s"
  "webSocketBroadcaster (emit e s) = webSocketBroadcaster s"
  "sensorDataBroadcaster (emit e s) = sensorDataBroadcaster s"
  "clients (emit e s) = clients s" "subscribedTopics (emit e s) = subscribedTopics s"
  "listeners (emit e s) = listeners s" "ended (emit e s) = ended s"
  by (simp_all add: emit_def)

lemma callFaults_Suc:
  "callFaults (Suc n) fs = (fs \<noteq> [] \<and> hd fs) # callFaults n (tl fs)"
  by (cases fs) simp_all

lemma arrivals_Suc:
  "concat (take (Suc n) arrivals) =
     (case arrivals of [] \<Rightarrow> [] | a # _ \<Rightarrow> a) @ concat (take n (tl arrivals))"
  by (cases arrivals) simp_all

lemma create_step:
  assumes "on_repo (createDeviceData ins now) s = (r, s1)"
  shows "faults (repo s1) = tl (faults (repo s)) \<and> trace s1 = trace s \<and>
         batchBuffer s1 = batchBuffer s \<and>
         (case r of
            Inl e \<Rightarrow> (faults (repo s) \<noteq> [] \<and> hd (faults (repo s))) \<and>
                     deviceData (repo s1) = deviceData (repo s)
          | Inr row \<Rightarrow> \<not> (faults (repo s) \<noteq> [] \<and> hd (faults (repo s))) \<and>
                     deviceData (repo s1) = deviceData (repo s) @ [row] \<and>
                     row_deviceId row = ins_deviceId ins \<and>
                     row_alcoholLevel row = ins_alcoholLevel ins \<and>
                     row_alertStatus row = ins_alertStatus ins \<and> row_timestamp row = now)"
  using assms
  by (cases "faults (repo s)")
     (auto simp: on_repo_def createDeviceData_def attempt_def Let_def split: if_splits)

lemma flushLoop_result:
  "\<exists>s' rows.
     flushLoop now batch arrivals cnt failed s =
       (cnt + length (filter Not (callFaults (length batch) (faults (repo s)))),
        failed @ map fst (filter snd (zip batch (callFaults (length batch) (faults (repo s))))),
        s') \<and>
     trace s' = trace s @
       map (\<lambda>(d, f). Persist d (\<not> f)) (zip batch (callFaults (length batch) (faults (repo s)))) \<and>
     faults (repo s') = drop (length batch) (faults (repo s)) \<and>
     batchBuffer s' = batchBuffer s @ concat (take (length batch) arrivals) \<and>
     deviceData (repo s') = deviceData (repo s) @ rows \<and>
     map (\<lambda>r. (row_deviceId r, row_alcoholLevel r, row_alertStatus r)) rows =
       map (\<lambda>d. (b_deviceId d, b_alcoholLevel d, b_alertStatus d))
         (map fst (filter (\<lambda>(d, f). \<not> f) (zip batch (callFaults (length batch) (faults (repo s))))))"
proof (induction batch arbitrary: arrivals cnt failed s)
  case Nil
  show ?case by simp
next
  case (Cons d batch)
  let ?ins = "\<lparr>ins_deviceId = b_deviceId d, ins_alcoholLevel = b_alcoholLevel d,
               ins_alertStatus = b_alertStatus d\<rparr>"
  let ?f = "faults (repo s) \<noteq> [] \<and> hd (faults (repo s))"
  let ?a = "case arrivals of [] \<Rightarrow> [] | a # _ \<Rightarrow> a"
  obtain r s1 where c: "on_repo (createDeviceData ?ins now) s = (r, s1)"
    by (cases "on_repo (createDeviceData ?ins now) s")
  note st = create_step [OF c]
  define s2 where "s2 = s1\<lparr>batchBuffer := batchBuffer s1 @ ?a\<rparr>"
  from st have s2: "faults (repo s2) = tl (faults (repo s))" "trace s2 = trace s"
    "batchBuffer s2 = batchBuffer s @ ?a" "deviceData (repo s2) = deviceData (repo s1)"
    by (simp_all add: s2_def)
  show ?case
  proof (cases r)
    case (Inl e)
    with st have f: ?f and d1: "deviceData (repo s1) = deviceData (repo s)"
      by simp_all
    from c Inl have step: "flushLoop now (d # batch) arrivals cnt failed s =
        flushLoop now batch (tl arrivals) cnt (failed @ [d]) (emit (Persist d False) s2)"
      by (simp add: s2_def)
    from Cons.IH [of "tl arrivals" cnt "failed @ [d]" "emit (Persist d False) s2"]
    obtain s' rows where ih:
      "flushLoop now batch (tl arrivals) cnt (failed @ [d]) (emit (Persist d False) s2) =
       (cnt + length (filter Not (callFaults (length batch) (tl (faults (repo s))))),
        (failed @ [d]) @ map fst (filter snd (zip batch (callFaults (length batch) (tl (faults (repo s)))))),
        s')"
      "trace s' = (trace s @ [Persist d False]) @
         map (\<lambda>(d, f). Persist d (\<not> f)) (zip batch (callFaults (length batch) (tl (faults (repo s)))))"
      "faults (repo s') = drop (length batch) (tl (faults (repo s)))"
      "batchBuffer s' = (batchBuffer s @ ?a) @ concat (take (length batch) (tl arrivals))"
      "deviceData (repo s') = deviceData (repo s) @ rows"
      "map (\<lambda>r. (row_deviceId r, row_alcoholLevel r, row_alertStatus r)) rows =
       map (\<lambda>d. (b_deviceId d, b_alcoholLevel d, b_alertStatus d))
         (map fst (filter (\<lambda>(d, f). \<not> f) (zip batch (callFaults (length batch) (tl (faults (repo s)))))))"
      unfolding emit_fields s2 d1 by blast
    from f ih step show ?thesis
      by (intro exI [of _ s'] exI [of _ rows])
         (simp add: callFaults_Suc drop_Suc arrivals_Suc del: take_Suc_Cons)
  next
    case (Inr row)
    with st have f: "\<not> ?f" and d1: "deviceData (repo s1) = deviceData (repo s) @ [row]"
      and row: "row_deviceId row = b_deviceId d" "row_alcoholLevel row = b_alcoholLevel d"
        "row_alertStatus row = b_alertStatus d"
      by simp_all
    from c Inr have step: "flushLoop now (d # batch) arrivals cnt failed s =
        flushLoop now batch (tl arrivals) (cnt + 1) failed (emit (Persist d True) s2)"
      by (simp add: s2_def)
    from Cons.IH [of "tl arrivals" "cnt + 1" failed "emit (Persist d True) s2"]
    obtain s' rows where ih:
      "flushLoop now batch (tl arrivals) (cnt + 1) failed (emit (Persist d True) s2) =
       (cnt + 1 + length (filter Not (callFaults (length batch) (tl (faults (repo s))))),
        failed @ map fst (filter snd (zip batch (callFaults (length batch) (tl (faults (repo s)))))),
        s')"
      "trace s' = (trace s @ [Persist d True]) @
         map (\<lambda>(d, f). Persist d (\<not> f)) (zip batch (callFaults (length batch) (tl (faults (repo s)))))"
      "faults (repo s') = drop (length batch) (tl (faults (repo s)))"
      "batchBuffer s' = (batchBuffer s @ ?a) @ concat (take (length batch) (tl arrivals))"
      "deviceData (repo s') = (deviceData (repo s) @ [row]) @ rows"
      "map (\<lambda>r. (row_deviceId r, row_alcoholLevel r, row_alertStatus r)) rows =
       map (\<lambda>d. (b_deviceId d, b_alcoholLevel d, b_alertStatus d))
         (map fst (filter (\<lambda>(d, f). \<not> f) (zip batch (callFaults (length batch) (tl (faults (repo s)))))))"
      unfolding emit_fields s2 d1 by blast
    from f ih step row show ?thesis
      by (intro exI [of _ s'] exI [of _ "row # rows"])
         (simp add: callFaults_Suc drop_Suc arrivals_Suc del: take_Suc_Cons)
  qed
qed

lemma create_frame:
  "on_repo (createDeviceData ins now) s = (r, s1) \<Longrightarrow>
     latestReadingsCache s1 = latestReadingsCache s \<and>
     webSocketBroadcaster s1 = webSocketBroadcaster s"
  by (auto simp: on_repo_def split: prod.splits)

lemma flushLoop_frame:
  "latestReadingsCache (snd (snd (flushLoop now batch arrivals cnt failed s))) =
     latestReadingsCache s \<and>
   webSocketBroadcaster (snd (snd (flushLoop now batch arrivals cnt failed s))) =
     webSocketBroadcaster s"
proof (induction batch arbitrary: arrivals cnt failed s)
  case Nil
  show ?case by simp
next
  case (Cons d batch)
  show ?case
    by (auto simp: Cons.IH Let_def split: prod.splits sum.splits dest: create_frame)
qed

lemma stored_count:
  "length fs = length batch \<Longrightarrow>
     length (filter (\<lambda>(d, f). \<not> f) (zip batch fs)) = length (filter Not fs)"
proof (induction batch arbitrary: fs)
  case Nil
  then show ?case by simp
next
  case (Cons d batch)
  then show ?case by (cases fs) auto
qed

lemma length_callFaults [simp]: "length (callFaults n fs) = n"
  by (induction n fs rule: callFaults.induct) simp_all

lemma flushBatch_result:
  "\<exists>s' rows.
     flushBatch retryOnError arrivals now s =
       (length (filter (\<lambda>(d, f). \<not> f)
          (zip (batchBuffer s) (callFaults (length (batchBuffer s)) (faults (repo s))))), s') \<and>
     trace s' = trace s @ FlushBatch retryOnError #
                  map (\<lambda>(d, f). Persist d (\<not> f))
                    (zip (batchBuffer s) (callFaults (length (batchBuffer s)) (faults (repo s)))) \<and>
     deviceData (repo s') = deviceData (repo s) @ rows \<and>
     map (\<lambda>r. (row_deviceId r, row_alcoholLevel r, row_alertStatus r)) rows =
       map (\<lambda>d. (b_deviceId d, b_alcoholLevel d, b_alertStatus d))
         (map fst (filter (\<lambda>(d, f). \<not> f)
            (zip (batchBuffer s) (callFaults (length (batchBuffer s)) (faults (repo s)))))) \<and>
     batchBuffer s' =
       (if retryOnError
        then map fst (filter snd
               (zip (batchBuffer s) (callFaults (length (batchBuffer s)) (faults (repo s)))))
        else []) @ concat (take (length (batchBuffer s)) arrivals) \<and>
     latestReadingsCache s' = latestReadingsCache s \<and>
     webSocketBroadcaster s' = webSocketBroadcaster s"
proof (cases "batchBuffer s = []")
  case True
  then show ?thesis
    by (intro exI [of _ "emit (FlushBatch retryOnError) s"] exI [of _ "[]"])
       (simp add: flushBatch_def)
next
  case False
  let ?batch = "batchBuffer s"
  let ?outcomes = "callFaults (length (batchBuffer s)) (faults (repo s))"
  let ?failed = "map fst (filter snd (zip ?batch ?outcomes))"
  let ?arrived = "concat (take (length (batchBuffer s)) arrivals)"
  define s1 where "s1 = (emit (FlushBatch retryOnError) s)\<lparr>batchBuffer := []\<rparr>"
  have s1: "faults (repo s1) = faults (repo s)" "trace s1 = trace s @ [FlushBatch retryOnError]"
    "batchBuffer s1 = []" "deviceData (repo s1) = deviceData (repo s)"
    by (simp_all add: s1_def)
  from flushLoop_result [of now ?batch arrivals 0 "[]" s1]
  obtain s2 rows where r:
    "flushLoop now ?batch arrivals 0 [] s1 = (length (filter Not ?outcomes), ?failed, s2)"
    "trace s2 = (trace s @ [FlushBatch retryOnError]) @
        map (\<lambda>(d, f). Persist d (\<not> f)) (zip ?batch ?outcomes)"
    "batchBuffer s2 = ?arrived"
    "deviceData (repo s2) = deviceData (repo s) @ rows"
    "map (\<lambda>r. (row_deviceId r, row_alcoholLevel r, row_alertStatus r)) rows =
       map (\<lambda>d. (b_deviceId d, b_alcoholLevel d, b_alertStatus d))
         (map fst (filter (\<lambda>(d, f). \<not> f) (zip ?batch ?outcomes)))"
    unfolding s1 by auto
  have frame: "latestReadingsCache s2 = latestReadingsCache s1 \<and>
               webSocketBroadcaster s2 = webSocketBroadcaster s1"
    using flushLoop_frame [of now ?batch arrivals 0 "[]" s1] r(1) by simp
  have n: "length (filter (\<lambda>(d, f). \<not> f) (zip ?batch ?outcomes)) = length (filter Not ?outcomes)"
    by (simp add: stored_count)
  define s3 where "s3 = (if ?failed \<noteq> [] \<and> retryOnError
                         then s2\<lparr>batchBuffer := ?failed @ batchBuffer s2\<rparr> else s2)"
  from False r(1) have "flushBatch retryOnError arrivals now s =
       (length (filter (\<lambda>(d, f). \<not> f) (zip ?batch ?outcomes)), s3)"
    by (simp add: flushBatch_def Let_def s1_def s3_def n)
  moreover have "trace s3 = trace s @ FlushBatch retryOnError #
                  map (\<lambda>(d, f). Persist d (\<not> f)) (zip ?batch ?outcomes)"
    and "deviceData (repo s3) = deviceData (repo s) @ rows"
    and "batchBuffer s3 = (if retryOnError then ?failed else []) @ ?arrived"
    and "latestReadingsCache s3 = latestReadingsCache s"
    and "webSocketBroadcaster s3 = webSocketBroadcaster s"
    using r(2-4) frame by (auto simp: s3_def s1_def)
  ultimately show ?thesis using r(5)
    by (intro exI [of _ s3] exI [of _ rows]) simp
qed

text \<open>
  Claim C6. For every buffer and either value of \<^verbatim>\<open>retryOnError\<close>, \<^verbatim>\<open>flushBatch\<close> takes
  the buffered readings out of the buffer and makes one \<^verbatim>\<open>createDeviceData\<close> call for each
  of them, in buffer order, whatever became of the calls before it; the rows appended to
  the repository are the readings whose own call did not throw, in order, and the count
  returned is their number. The buffer left behind is the new one: it holds the readings
  that arrived while the calls were awaited, in order of arrival, with the readings whose
  call threw put in front of them, in order, when \<^verbatim>\<open>retryOnError\<close> is set, and without
  them otherwise.
\<close>

theorem flushBatch_attempts_every_reading:
  fixes s :: service and arrivals :: "BatchedData list list"
  defines "batch \<equiv> batchBuffer s"
    and "outcomes \<equiv> callFaults (length (batchBuffer s)) (faults (repo s))"
  defines "stored \<equiv> map fst (filter (\<lambda>(d, f). \<not> f) (zip batch outcomes))"
    and "failedItems \<equiv> map fst (filter snd (zip batch outcomes))"
    and "arrived \<equiv> concat (take (length batch) arrivals)"
  shows "\<exists>s' rows.
     flushBatch retryOnError arrivals now s = (length stored, s') \<and>
     trace s' = trace s @ FlushBatch retryOnError #
                  map (\<lambda>(d, f). Persist d (\<not> f)) (zip batch outcomes) \<and>
     deviceData (repo s') = deviceData (repo s) @ rows \<and>
     map (\<lambda>r. (row_deviceId r, row_alcoholLevel r, row_alertStatus r)) rows =
       map (\<lambda>d. (b_deviceId d, b_alcoholLevel d, b_alertStatus d)) stored \<and>
     batchBuffer s' = (if retryOnError then failedItems @ arrived else arrived)"
  using flushBatch_result [of retryOnError arrivals now s]
  unfolding batch_def outcomes_def stored_def failedItems_def arrived_def by auto

theorem flushBatch_attempts_every_reading_witness:
  "fst (flushBatch True [[example_reading ''D3'' 50], [], [example_reading ''D4'' 60]] 80
          (example_service example_devices
             [example_reading ''D1'' 100, example_reading ''D1'' 1800, example_reading ''D2'' 2600]
             [False, True, False] [])) = 2 \<and>
   batchBuffer (snd (flushBatch True [[example_reading ''D3'' 50], [], [example_reading ''D4'' 60]] 80
          (example_service example_devices
             [example_reading ''D1'' 100, example_reading ''D1'' 1800, example_reading ''D2'' 2600]
             [False, True, False] []))) =
     [example_reading ''D1'' 1800, example_reading ''D3'' 50, example_reading ''D4'' 60] \<and>
   batchBuffer (snd (flushBatch False [[example_reading ''D3'' 50], [], [example_reading ''D4'' 60]] 80
          (example_service example_devices
             [example_reading ''D1'' 100, example_reading ''D1'' 1800, example_reading ''D2'' 2600]
             [False, True, False] []))) =
     [example_reading ''D3'' 50, example_reading ''D4'' 60]"
proof -
  let ?s = "example_service example_devices
             [example_reading ''D1'' 100, example_reading ''D1'' 1800, example_reading ''D2'' 2600]
             [False, True, False] []"
  let ?arrivals = "[[example_reading ''D3'' 50], [], [example_reading ''D4'' 60]]"
  have b: "batchBuffer ?s =
      [example_reading ''D1'' 100, example_reading ''D1'' 1800, example_reading ''D2'' 2600]"
    and f: "faults (repo ?s) = [False, True, False]"
    by (simp_all add: example_service_def example_storage_def)
  have c: "callFaults (length (batchBuffer ?s)) (faults (repo ?s)) = [False, True, False]"
    unfolding b f by (simp add: numeral_3_eq_3)
  have a: "concat (take (length (batchBuffer ?s)) ?arrivals) =
      [example_reading ''D3'' 50, example_reading ''D4'' 60]"
    unfolding b by simp
  from flushBatch_attempts_every_reading [of True ?arrivals 80 ?s]
  have 1: "fst (flushBatch True ?arrivals 80 ?s) = 2 \<and>
           batchBuffer (snd (flushBatch True ?arrivals 80 ?s)) =
             [example_reading ''D1'' 1800, example_reading ''D3'' 50, example_reading ''D4'' 60]"
    unfolding c a unfolding b by auto
  from flushBatch_attempts_every_reading [of False ?arrivals 80 ?s]
  have 2: "batchBuffer (snd (flushBatch False ?arrivals 80 ?s)) =
             [example_reading ''D3'' 50, example_reading ''D4'' 60]"
    unfolding a by auto
  from 1 2 show ?thesis by simp
qed

section \<open>Properties of message handling\<close>

lemma on_repo_updateDevice_frame:
  "on_repo (updateDevice i u) s = (r, s') \<Longrightarrow>
     trace s' = trace s \<and> batchBuffer s' = batchBuffer s \<and>
     latestReadingsCache s' = latestReadingsCache s \<and>
     webSocketBroadcaster s' = webSocketBroadcaster s \<and>
     deviceData (repo s') = deviceData (repo s)"
  by (auto simp: on_repo_def updateDevice_def Let_def
      split: prod.splits sum.splits dest: attempt_tables)

lemma broadcastDevice_effect:
  "batchBuffer (broadcastDevice u s) = batchBuffer s \<and>
   latestReadingsCache (broadcastDevice u s) = latestReadingsCache s \<and>
   (trace (broadcastDevice u s) = trace s \<or>
    (\<exists>d. trace (broadcastDevice u s) = trace s @ [DeviceBroadcast d]))"
  by (auto simp: broadcastDevice_def split: option.splits)

lemma handleMessage_dropped:
  "decodeMessage message = None \<Longrightarrow> handleMessage topic message device now s = s"
  by (simp add: handleMessage_def)

lemma handleMessage_effects:
  assumes "decodeMessage message = Some level"
  shows "\<exists>flushed tail.
     trace (handleMessage topic message device now s) =
       trace s @
       CacheSet (deviceId device)
         \<lparr>alcoholLevel = orZero level, timestamp = now,
          alertStatus = calculateAlertStatus (orZero level)\<rparr> #
       (if sensorDataBroadcaster s
        then [SensorBroadcast (deviceId device)
                \<lparr>alcoholLevel = orZero level, timestamp = now,
                 alertStatus = calculateAlertStatus (orZero level)\<rparr>]
        else []) @
       BufferPush
         \<lparr>b_deviceId = deviceId device, b_alcoholLevel = orZero level,
          b_alertStatus = calculateAlertStatus (orZero level), b_timestamp = now\<rparr> #
       flushed @ tail \<and>
     (if length (batchBuffer s) + 1 \<ge> BATCH_SIZE
      then flushed = FlushBatch False #
             map (\<lambda>(d, f). Persist d (\<not> f))
               (zip (batchBuffer s @
                       [\<lparr>b_deviceId = deviceId device, b_alcoholLevel = orZero level,
                         b_alertStatus = calculateAlertStatus (orZero level), b_timestamp = now\<rparr>])
                    (callFaults (length (batchBuffer s) + 1) (faults (repo s)))) \<and>
           batchBuffer (handleMessage topic message device now s) = []
      else flushed = [] \<and>
           batchBuffer (handleMessage topic message device now s) =
             batchBuffer s @
               [\<lparr>b_deviceId = deviceId device, b_alcoholLevel = orZero level,
                 b_alertStatus = calculateAlertStatus (orZero level), b_timestamp = now\<rparr>] \<and>
           deviceData (repo (handleMessage topic message device now s)) = deviceData (repo s)) \<and>
     (tail = [] \<or> (\<exists>d. tail = [DeviceBroadcast d])) \<and>
     latestReadingsCache (handleMessage topic message device now s) =
       (latestReadingsCache s)(deviceId device \<mapsto>
         \<lparr>alcoholLevel = orZero level, timestamp = now,
          alertStatus = calculateAlertStatus (orZero level)\<rparr>)"
proof -
  let ?r = "\<lparr>alcoholLevel = orZero level, timestamp = now,
             alertStatus = calculateAlertStatus (orZero level)\<rparr>"
  let ?item = "\<lparr>b_deviceId = deviceId device, b_alcoholLevel = orZero level,
                b_alertStatus = calculateAlertStatus (orZero level), b_timestamp = now\<rparr>"
  let ?pre = "CacheSet (deviceId device) ?r #
       (if sensorDataBroadcaster s then [SensorBroadcast (deviceId device) ?r] else []) @
       [BufferPush ?item]"
  define s1 where "s1 = emit (CacheSet (deviceId device) ?r)
     (s\<lparr>latestReadingsCache := (latestReadingsCache s)(deviceId device \<mapsto> ?r)\<rparr>)"
  define s2 where "s2 = (if sensorDataBroadcaster s1
     then emit (SensorBroadcast (deviceId device) ?r) s1 else s1)"
  define s3 where "s3 = emit (BufferPush ?item) (s2\<lparr>batchBuffer := batchBuffer s2 @ [?item]\<rparr>)"
  define s4 where "s4 = (if length (batchBuffer s3) \<ge> BATCH_SIZE
     then snd (flushBatch False [] now s3) else s3)"
  define u where "u = \<lparr>upd_status = Some ''online'', upd_lastSeen = Some now\<rparr>"
  have s3: "trace s3 = trace s @ ?pre" "batchBuffer s3 = batchBuffer s @ [?item]"
    "latestReadingsCache s3 = (latestReadingsCache s)(deviceId device \<mapsto> ?r)"
    "repo s3 = repo s"
    by (simp_all add: s1_def s2_def s3_def)
  have hm: "handleMessage topic message device now s =
      (case on_repo (updateDevice (dev_id device) u) s4 of
         (Inl e, s5) \<Rightarrow> s5
       | (Inr updatedDevice, s5) \<Rightarrow> broadcastDevice updatedDevice s5)"
    using assms
    by (simp add: handleMessage_def Let_def s1_def s2_def s3_def s4_def u_def)
  obtain flushed where s4:
    "trace s4 = trace s @ ?pre @ flushed"
    "latestReadingsCache s4 = (latestReadingsCache s)(deviceId device \<mapsto> ?r)"
    "if length (batchBuffer s) + 1 \<ge> BATCH_SIZE
      then flushed = FlushBatch False #
             map (\<lambda>(d, f). Persist d (\<not> f))
               (zip (batchBuffer s @ [?item])
                    (callFaults (length (batchBuffer s) + 1) (faults (repo s)))) \<and>
           batchBuffer s4 = []
      else flushed = [] \<and> batchBuffer s4 = batchBuffer s @ [?item] \<and>
           deviceData (repo s4) = deviceData (repo s)"
  proof (cases "length (batchBuffer s) + 1 \<ge> BATCH_SIZE")
    case True
    from flushBatch_result [of False "[]" now s3] obtain s' where
      f: "snd (flushBatch False [] now s3) = s'"
      "trace s' = trace s3 @ FlushBatch False #
                  map (\<lambda>(d, f). Persist d (\<not> f))
                    (zip (batchBuffer s3) (callFaults (length (batchBuffer s3)) (faults (repo s3))))"
      "batchBuffer s' = []" "latestReadingsCache s' = latestReadingsCache s3"
      by auto
    from True have "s4 = s'" by (simp add: s4_def s3 f(1))
    with f s3 True show ?thesis
      by (intro that [of "FlushBatch False #
             map (\<lambda>(d, f). Persist d (\<not> f))
               (zip (batchBuffer s @ [?item])
                    (callFaults (length (batchBuffer s) + 1) (faults (repo s))))"]) simp_all
  next
    case False
    then have "s4 = s3" by (simp add: s4_def s3)
    with s3 False show ?thesis by (intro that [of "[]"]) simp_all
  qed
  obtain r5 s5 where up: "on_repo (updateDevice (dev_id device) u) s4 = (r5, s5)"
    by (cases "on_repo (updateDevice (dev_id device) u) s4")
  note fr = on_repo_updateDevice_frame [OF up]
  obtain tail where t:
    "trace (handleMessage topic message device now s) = trace s5 @ tail"
    "tail = [] \<or> (\<exists>d. tail = [DeviceBroadcast d])"
    "batchBuffer (handleMessage topic message device now s) = batchBuffer s5"
    "latestReadingsCache (handleMessage topic message device now s) = latestReadingsCache s5"
    "deviceData (repo (handleMessage topic message device now s)) = deviceData (repo s5)"
  proof (cases r5)
    case (Inl e)
    with hm up show ?thesis by (intro that [of "[]"]) simp_all
  next
    case (Inr updatedDevice)
    with hm up have h: "handleMessage topic message device now s = broadcastDevice updatedDevice s5"
      by simp
    from broadcastDevice_effect [of updatedDevice s5] show ?thesis
    proof (elim conjE disjE exE)
      assume "trace (broadcastDevice updatedDevice s5) = trace s5"
        "batchBuffer (broadcastDevice updatedDevice s5) = batchBuffer s5"
        "latestReadingsCache (broadcastDevice updatedDevice s5) = latestReadingsCache s5"
      with h show ?thesis by (intro that [of "[]"]) simp_all
    next
      fix d assume "trace (broadcastDevice updatedDevice s5) = trace s5 @ [DeviceBroadcast d]"
        "batchBuffer (broadcastDevice updatedDevice s5) = batchBuffer s5"
        "latestReadingsCache (broadcastDevice updatedDevice s5) = latestReadingsCache s5"
      with h show ?thesis by (intro that [of "[DeviceBroadcast d]"]) simp_all
    qed
  qed
  from t fr s4 show ?thesis
    by (intro exI [of _ flushed] exI [of _ tail]) (auto split: if_splits)
qed


lemma calculateAlertStatus_int:
  fixes n :: int
  shows "calculateAlertStatus (Num (of_int n)) =
           (if n < 1700 then ''Normal''
            else if n \<le> 2499 then ''Moderate Drunk'' else ''Completely Drunk'')"
proof -
  have a: "(2500 :: rat) \<le> of_int n \<longleftrightarrow> 2500 \<le> n"
    using of_int_le_iff [of 2500 n, where 'a = rat] by simp
  have b: "(1700 :: rat) \<le> of_int n \<longleftrightarrow> 1700 \<le> n"
    using of_int_le_iff [of 1700 n, where 'a = rat] by simp
  show ?thesis
    by (auto simp: calculateAlertStatus_def number_ge_def a b)
qed

text \<open>
  Claim C3. For every integer level \<open>n\<close> the alert status is \<^verbatim>\<open>Normal\<close> when \<open>n < 1700\<close>,
  \<^verbatim>\<open>Moderate Drunk\<close> when \<open>1700 \<le> n \<le> 2499\<close> and \<^verbatim>\<open>Completely Drunk\<close> when
  \<open>n \<ge> 2500\<close>. A message that decodes to a level is cached, broadcast (when the sensor
  broadcaster is set) and pushed onto the batch buffer with the status that
  \<^verbatim>\<open>calculateAlertStatus\<close> gives for the level it is stored with, and every cache write,
  sensor broadcast and push that \<^verbatim>\<open>handleMessage\<close> makes carries the status of its own
  level.
\<close>
theorem alert_status_by_thresholds:
  "(\<forall>n :: int.
      (n < 1700 \<longrightarrow> calculateAlertStatus (Num (of_int n)) = ''Normal'') \<and>
      (1700 \<le> n \<and> n \<le> 2499 \<longrightarrow> calculateAlertStatus (Num (of_int n)) = ''Moderate Drunk'') \<and>
      (2500 \<le> n \<longrightarrow> calculateAlertStatus (Num (of_int n)) = ''Completely Drunk'')) \<and>
   (\<forall>level. decodeMessage message = Some level \<longrightarrow>
      latestReadingsCache (handleMessage topic message device now s) (deviceId device) =
        Some \<lparr>alcoholLevel = orZero level, timestamp = now,
              alertStatus = calculateAlertStatus (orZero level)\<rparr> \<and>
      BufferPush \<lparr>b_deviceId = deviceId device, b_alcoholLevel = orZero level,
                  b_alertStatus = calculateAlertStatus (orZero level), b_timestamp = now\<rparr>
        \<in> set (drop (length (trace s)) (trace (handleMessage topic message device now s))) \<and>
      (sensorDataBroadcaster s \<longrightarrow>
         SensorBroadcast (deviceId device)
           \<lparr>alcoholLevel = orZero level, timestamp = now,
            alertStatus = calculateAlertStatus (orZero level)\<rparr>
         \<in> set (drop (length (trace s)) (trace (handleMessage topic message device now s))))) \<and>
   (\<forall>e \<in> set (drop (length (trace s)) (trace (handleMessage topic message device now s))).
      (\<forall>did r. e = CacheSet did r \<or> e = SensorBroadcast did r \<longrightarrow>
          alertStatus r = calculateAlertStatus (alcoholLevel r)) \<and>
      (\<forall>item. e = BufferPush item \<longrightarrow>
          b_alertStatus item = calculateAlertStatus (b_alcoholLevel item)))"
proof (intro conjI allI impI ballI)
  fix n :: int
  show "n < 1700 \<Longrightarrow> calculateAlertStatus (Num (of_int n)) = ''Normal''"
    and "1700 \<le> n \<and> n \<le> 2499 \<Longrightarrow> calculateAlertStatus (Num (of_int n)) = ''Moderate Drunk''"
    and "2500 \<le> n \<Longrightarrow> calculateAlertStatus (Num (of_int n)) = ''Completely Drunk''"
    by (simp_all add: calculateAlertStatus_int)
next
  fix level assume d: "decodeMessage message = Some level"
  from handleMessage_effects [OF d, of topic device now s]
  show "latestReadingsCache (handleMessage topic message device now s) (deviceId device) =
        Some \<lparr>alcoholLevel = orZero level, timestamp = now,
              alertStatus = calculateAlertStatus (orZero level)\<rparr>"
    and "BufferPush \<lparr>b_deviceId = deviceId device, b_alcoholLevel = orZero level,
                  b_alertStatus = calculateAlertStatus (orZero level), b_timestamp = now\<rparr>
        \<in> set (drop (length (trace s)) (trace (handleMessage topic message device now s)))"
    by auto
  assume "sensorDataBroadcaster s"
  with handleMessage_effects [OF d, of topic device now s]
  show "SensorBroadcast (deviceId device)
           \<lparr>alcoholLevel = orZero level, timestamp = now,
            alertStatus = calculateAlertStatus (orZero level)\<rparr>
         \<in> set (drop (length (trace s)) (trace (handleMessage topic message device now s)))"
    by auto
next
  fix e did r
  assume e: "e \<in> set (drop (length (trace s)) (trace (handleMessage topic message device now s)))"
    and c: "e = CacheSet did r \<or> e = SensorBroadcast did r"
  show "alertStatus r = calculateAlertStatus (alcoholLevel r)"
  proof (cases "decodeMessage message")
    case None
    with e show ?thesis by (simp add: handleMessage_dropped)
  next
    case (Some level)
    from handleMessage_effects [OF Some, of topic device now s] e c show ?thesis
      by (auto split: if_splits)
  qed
next
  fix e item
  assume e: "e \<in> set (drop (length (trace s)) (trace (handleMessage topic message device now s)))"
    and c: "e = BufferPush item"
  show "b_alertStatus item = calculateAlertStatus (b_alcoholLevel item)"
  proof (cases "decodeMessage message")
    case None
    with e show ?thesis by (simp add: handleMessage_dropped)
  next
    case (Some level)
    from handleMessage_effects [OF Some, of topic device now s] e c show ?thesis
      by (auto split: if_splits)
  qed
qed


theorem alert_status_by_thresholds_witness:
  "calculateAlertStatus (Num 1699) = ''Normal'' \<and>
   calculateAlertStatus (Num 1700) = ''Moderate Drunk'' \<and>
   calculateAlertStatus (Num 2499) = ''Moderate Drunk'' \<and>
   calculateAlertStatus (Num 2500) = ''Completely Drunk'' \<and>
   latestReadingsCache
     (handleMessage ''alcohol/D1'' (level_message 1800) (example_device 1 ''D1'' ''online'' (Some 1000) True)
        70 (example_service example_devices [] [] [])) ''D1'' =
     Some \<lparr>alcoholLevel = Num 1800, timestamp = 70, alertStatus = ''Moderate Drunk''\<rparr> \<and>
   SensorBroadcast ''D1'' \<lparr>alcoholLevel = Num 1800, timestamp = 70, alertStatus = ''Moderate Drunk''\<rparr>
     \<in> set (trace
       (handleMessage ''alcohol/D1'' (level_message 1800) (example_device 1 ''D1'' ''online'' (Some 1000) True)
          70 (example_service example_devices [] [] []))) \<and>
   BufferPush \<lparr>b_deviceId = ''D1'', b_alcoholLevel = Num 1800, b_alertStatus = ''Moderate Drunk'',
               b_timestamp = 70\<rparr>
     \<in> set (trace
       (handleMessage ''alcohol/D1'' (level_message 1800) (example_device 1 ''D1'' ''online'' (Some 1000) True)
          70 (example_service example_devices [] [] [])))"
proof -
  let ?dev = "example_device 1 ''D1'' ''online'' (Some 1000) True"
  let ?s = "example_service example_devices [] [] []"
  note t = alert_status_by_thresholds [of "level_message 1800" "''alcohol/D1''" ?dev 70 ?s]
  have d: "decodeMessage (level_message 1800) = Some (Num 1800)"
    by (simp add: decodeMessage_def level_message_def extractAlcoholLevel_def
        parseFloatOrZero_def orZero_def)
  have o: "orZero (Num 1800) = Num 1800" by (simp add: orZero_def)
  have i: "deviceId ?dev = ''D1''"
    by (simp add: example_device_def)
  have e: "sensorDataBroadcaster ?s" "drop (length (trace ?s)) = (\<lambda>xs :: effect list. xs)"
    by (simp_all add: example_service_def fun_eq_iff)
  from t have n: "\<And>n :: int.
      (n < 1700 \<longrightarrow> calculateAlertStatus (Num (of_int n)) = ''Normal'') \<and>
      (1700 \<le> n \<and> n \<le> 2499 \<longrightarrow> calculateAlertStatus (Num (of_int n)) = ''Moderate Drunk'') \<and>
      (2500 \<le> n \<longrightarrow> calculateAlertStatus (Num (of_int n)) = ''Completely Drunk'')"
    by blast
  from n [of 1699] n [of 1700] n [of 2499] n [of 2500] n [of 1800]
  have c: "calculateAlertStatus (Num 1699) = ''Normal''"
    "calculateAlertStatus (Num 1700) = ''Moderate Drunk''"
    "calculateAlertStatus (Num 2499) = ''Moderate Drunk''"
    "calculateAlertStatus (Num 2500) = ''Completely Drunk''"
    "calculateAlertStatus (Num 1800) = ''Moderate Drunk''"
    by simp_all
  from t d e(1) have
    "latestReadingsCache (handleMessage ''alcohol/D1'' (level_message 1800) ?dev 70 ?s) (deviceId ?dev) =
       Some \<lparr>alcoholLevel = orZero (Num 1800), timestamp = 70,
             alertStatus = calculateAlertStatus (orZero (Num 1800))\<rparr> \<and>
     BufferPush \<lparr>b_deviceId = deviceId ?dev, b_alcoholLevel = orZero (Num 1800),
                 b_alertStatus = calculateAlertStatus (orZero (Num 1800)), b_timestamp = 70\<rparr>
       \<in> set (drop (length (trace ?s)) (trace (handleMessage ''alcohol/D1'' (level_message 1800) ?dev 70 ?s))) \<and>
     SensorBroadcast (deviceId ?dev)
         \<lparr>alcoholLevel = orZero (Num 1800), timestamp = 70,
          alertStatus = calculateAlertStatus (orZero (Num 1800))\<rparr>
       \<in> set (drop (length (trace ?s)) (trace (handleMessage ''alcohol/D1'' (level_message 1800) ?dev 70 ?s)))"
    by blast
  with c o i e(2) show ?thesis by simp
qed



lemma example_service_fields [simp]:
  "batchBuffer (example_service ds buffer fs rs) = buffer"
  "trace (example_service ds buffer fs rs) = []"
  "sensorDataBroadcaster (example_service ds buffer fs rs)"
  "webSocketBroadcaster (example_service ds buffer fs rs)"
  "timers (example_service ds buffer fs rs) = []"
  "connectFaults (example_service ds buffer fs rs) = rs"
  "latestReadingsCache (example_service ds buffer fs rs) = Map.empty"
  "faults (repo (example_service ds buffer fs rs)) = fs"
  "devices (repo (example_service ds buffer fs rs)) = ds"
  "offlineEvents (repo (example_service ds buffer fs rs)) = []"
  by (simp_all add: example_service_def example_storage_def)

lemma decode_level_message [simp]: "decodeMessage (level_message x) = Some (orZero (Num x))"
  by (simp add: decodeMessage_def level_message_def extractAlcoholLevel_def parseFloatOrZero_def)

lemma orZero_idem [simp]: "orZero (orZero x) = orZero x"
  by (simp add: orZero_def)



lemma handleMessage_rows:
  assumes "decodeMessage message = Some level"
    and "length (batchBuffer s) + 1 \<ge> BATCH_SIZE"
  shows "\<exists>rows.
     deviceData (repo (handleMessage topic message device now s)) = deviceData (repo s) @ rows \<and>
     map (\<lambda>r. (row_deviceId r, row_alcoholLevel r, row_alertStatus r)) rows =
       map (\<lambda>d. (b_deviceId d, b_alcoholLevel d, b_alertStatus d))
         (map fst (filter (\<lambda>(d, f). \<not> f)
            (zip (batchBuffer s @
                    [\<lparr>b_deviceId = deviceId device, b_alcoholLevel = orZero level,
                      b_alertStatus = calculateAlertStatus (orZero level), b_timestamp = now\<rparr>])
                 (callFaults (length (batchBuffer s) + 1) (faults (repo s))))))"
proof -
  let ?r = "\<lparr>alcoholLevel = orZero level, timestamp = now,
             alertStatus = calculateAlertStatus (orZero level)\<rparr>"
  let ?item = "\<lparr>b_deviceId = deviceId device, b_alcoholLevel = orZero level,
                b_alertStatus = calculateAlertStatus (orZero level), b_timestamp = now\<rparr>"
  define s1 where "s1 = emit (CacheSet (deviceId device) ?r)
     (s\<lparr>latestReadingsCache := (latestReadingsCache s)(deviceId device \<mapsto> ?r)\<rparr>)"
  define s2 where "s2 = (if sensorDataBroadcaster s1
     then emit (SensorBroadcast (deviceId device) ?r) s1 else s1)"
  define s3 where "s3 = emit (BufferPush ?item) (s2\<lparr>batchBuffer := batchBuffer s2 @ [?item]\<rparr>)"
  define s4 where "s4 = snd (flushBatch False [] now s3)"
  define u where "u = \<lparr>upd_status = Some ''online'', upd_lastSeen = Some now\<rparr>"
  have s3: "batchBuffer s3 = batchBuffer s @ [?item]" "repo s3 = repo s"
    by (simp_all add: s1_def s2_def s3_def)
  have hm: "handleMessage topic message device now s =
      (case on_repo (updateDevice (dev_id device) u) s4 of
         (Inl e, s5) \<Rightarrow> s5
       | (Inr updatedDevice, s5) \<Rightarrow> broadcastDevice updatedDevice s5)"
    using assms
    by (simp add: handleMessage_def Let_def s1_def s2_def s3_def s4_def u_def)
  obtain r5 s5 where up: "on_repo (updateDevice (dev_id device) u) s4 = (r5, s5)"
    by (cases "on_repo (updateDevice (dev_id device) u) s4")
  from on_repo_updateDevice_frame [OF up] have fr: "deviceData (repo s5) = deviceData (repo s4)"
    by simp
  have same: "deviceData (repo (handleMessage topic message device now s)) = deviceData (repo s4)"
    using hm up fr by (cases r5) simp_all
  from flushBatch_result [of False "[]" now s3] obtain rows where
    "deviceData (repo s4) = deviceData (repo s3) @ rows"
    "map (\<lambda>r. (row_deviceId r, row_alcoholLevel r, row_alertStatus r)) rows =
       map (\<lambda>d. (b_deviceId d, b_alcoholLevel d, b_alertStatus d))
         (map fst (filter (\<lambda>(d, f). \<not> f)
            (zip (batchBuffer s3) (callFaults (length (batchBuffer s3)) (faults (repo s3))))))"
    unfolding s4_def by auto
  with same s3 show ?thesis
    by (intro exI [of _ rows]) simp
qed

text \<open>
  Claim C8. For a message that decodes to a level, \<^verbatim>\<open>handleMessage\<close> first writes the
  reading into the cache entry of the device, then calls the sensor-data broadcaster with
  the same reading (when one is set), then pushes the reading onto the batch buffer;
  whatever follows, the flush and its \<^verbatim>\<open>createDeviceData\<close> calls included, comes after the
  push and holds no further cache write, sensor broadcast or push. When it returns, the
  cache is the old one with the entry of the device set to the reading. Below 100
  buffered readings the buffer is the old one with the reading appended and no row was
  stored; from 100 on the buffer has been flushed empty and the rows stored are those of
  the old buffer followed by the reading, less the readings whose call threw.
\<close>

theorem broadcast_precedes_enqueue:
  fixes s :: service and device :: Device and level :: number and now :: instant
    and topic :: string and message :: mqtt_message
  defines "reading \<equiv> \<lparr>alcoholLevel = orZero level, timestamp = now,
                       alertStatus = calculateAlertStatus (orZero level)\<rparr>"
    and "item \<equiv> \<lparr>b_deviceId = deviceId device, b_alcoholLevel = orZero level,
                  b_alertStatus = calculateAlertStatus (orZero level), b_timestamp = now\<rparr>"
    and "s' \<equiv> handleMessage topic message device now s"
  shows "decodeMessage message = Some level \<longrightarrow>
     (\<exists>rest.
        trace s' =
          trace s @
          CacheSet (deviceId device) reading #
          (if sensorDataBroadcaster s then [SensorBroadcast (deviceId device) reading] else []) @
          BufferPush item # rest \<and>
        (\<forall>e \<in> set rest. (\<forall>did r. e \<noteq> CacheSet did r \<and> e \<noteq> SensorBroadcast did r) \<and>
                          (\<forall>item. e \<noteq> BufferPush item))) \<and>
     latestReadingsCache s' = (latestReadingsCache s)(deviceId device \<mapsto> reading) \<and>
     (if length (batchBuffer s) + 1 \<ge> BATCH_SIZE
      then batchBuffer s' = [] \<and>
           (\<exists>rows.
              deviceData (repo s') = deviceData (repo s) @ rows \<and>
              map (\<lambda>r. (row_deviceId r, row_alcoholLevel r, row_alertStatus r)) rows =
                map (\<lambda>d. (b_deviceId d, b_alcoholLevel d, b_alertStatus d))
                  (map fst (filter (\<lambda>(d, f). \<not> f)
                     (zip (batchBuffer s @ [item])
                          (callFaults (length (batchBuffer s) + 1) (faults (repo s)))))))
      else batchBuffer s' = batchBuffer s @ [item] \<and>
           deviceData (repo s') = deviceData (repo s))"
proof
  assume d: "decodeMessage message = Some level"
  from handleMessage_effects [OF d, of topic device now s] obtain flushed tail where
    t: "trace s' =
       trace s @
       CacheSet (deviceId device) reading #
       (if sensorDataBroadcaster s then [SensorBroadcast (deviceId device) reading] else []) @
       BufferPush item # flushed @ tail"
    and c: "if length (batchBuffer s) + 1 \<ge> BATCH_SIZE
      then flushed = FlushBatch False #
             map (\<lambda>(d, f). Persist d (\<not> f))
               (zip (batchBuffer s @ [item])
                    (callFaults (length (batchBuffer s) + 1) (faults (repo s)))) \<and>
           batchBuffer s' = []
      else flushed = [] \<and> batchBuffer s' = batchBuffer s @ [item] \<and>
           deviceData (repo s') = deviceData (repo s)"
    and tl: "tail = [] \<or> (\<exists>d. tail = [DeviceBroadcast d])"
    and cache: "latestReadingsCache s' = (latestReadingsCache s)(deviceId device \<mapsto> reading)"
    unfolding reading_def item_def s'_def by blast
  from c have f: "flushed = [] \<or>
      (\<exists>zs. flushed = FlushBatch False # map (\<lambda>(d, f). Persist d (\<not> f)) zs)"
    by (cases "length (batchBuffer s) + 1 \<ge> BATCH_SIZE") auto
  from f tl have "\<forall>e \<in> set (flushed @ tail).
      (\<forall>did r. e \<noteq> CacheSet did r \<and> e \<noteq> SensorBroadcast did r) \<and> (\<forall>item. e \<noteq> BufferPush item)"
    by auto
  with t have order: "\<exists>rest.
        trace s' =
          trace s @
          CacheSet (deviceId device) reading #
          (if sensorDataBroadcaster s then [SensorBroadcast (deviceId device) reading] else []) @
          BufferPush item # rest \<and>
        (\<forall>e \<in> set rest. (\<forall>did r. e \<noteq> CacheSet did r \<and> e \<noteq> SensorBroadcast did r) \<and>
                          (\<forall>item. e \<noteq> BufferPush item))"
    by (intro exI [of _ "flushed @ tail"]) simp
  have buffer: "if length (batchBuffer s) + 1 \<ge> BATCH_SIZE
      then batchBuffer s' = [] \<and>
           (\<exists>rows.
              deviceData (repo s') = deviceData (repo s) @ rows \<and>
              map (\<lambda>r. (row_deviceId r, row_alcoholLevel r, row_alertStatus r)) rows =
                map (\<lambda>d. (b_deviceId d, b_alcoholLevel d, b_alertStatus d))
                  (map fst (filter (\<lambda>(d, f). \<not> f)
                     (zip (batchBuffer s @ [item])
                          (callFaults (length (batchBuffer s) + 1) (faults (repo s)))))))
      else batchBuffer s' = batchBuffer s @ [item] \<and>
           deviceData (repo s') = deviceData (repo s)"
  proof (cases "length (batchBuffer s) + 1 \<ge> BATCH_SIZE")
    case True
    from handleMessage_rows [OF d True, of topic device now] c True show ?thesis
      unfolding item_def s'_def by simp
  next
    case False
    with c show ?thesis by simp
  qed
  from order cache buffer show "(\<exists>rest.
        trace s' =
          trace s @
          CacheSet (deviceId device) reading #
          (if sensorDataBroadcaster s then [SensorBroadcast (deviceId device) reading] else []) @
          BufferPush item # rest \<and>
        (\<forall>e \<in> set rest. (\<forall>did r. e \<noteq> CacheSet did r \<and> e \<noteq> SensorBroadcast did r) \<and>
                          (\<forall>item. e \<noteq> BufferPush item))) \<and>
     latestReadingsCache s' = (latestReadingsCache s)(deviceId device \<mapsto> reading) \<and>
     (if length (batchBuffer s) + 1 \<ge> BATCH_SIZE
      then batchBuffer s' = [] \<and>
           (\<exists>rows.
              deviceData (repo s') = deviceData (repo s) @ rows \<and>
              map (\<lambda>r. (row_deviceId r, row_alcoholLevel r, row_alertStatus r)) rows =
                map (\<lambda>d. (b_deviceId d, b_alcoholLevel d, b_alertStatus d))
                  (map fst (filter (\<lambda>(d, f). \<not> f)
                     (zip (batchBuffer s @ [item])
                          (callFaults (length (batchBuffer s) + 1) (faults (repo s)))))))
      else batchBuffer s' = batchBuffer s @ [item] \<and>
           deviceData (repo s') = deviceData (repo s))"
    by blast
qed

theorem broadcast_precedes_enqueue_witness:
  "take 3 (trace
      (handleMessage ''alcohol/D1'' (level_message 1800)
         (example_device 1 ''D1'' ''online'' (Some 1000) True) 70
         (example_service example_devices [example_reading ''D2'' 100] [] []))) =
     [CacheSet ''D1'' \<lparr>alcoholLevel = Num 1800, timestamp = 70, alertStatus = ''Moderate Drunk''\<rparr>,
      SensorBroadcast ''D1'' \<lparr>alcoholLevel = Num 1800, timestamp = 70, alertStatus = ''Moderate Drunk''\<rparr>,
      BufferPush \<lparr>b_deviceId = ''D1'', b_alcoholLevel = Num 1800, b_alertStatus = ''Moderate Drunk'',
                  b_timestamp = 70\<rparr>] \<and>
   latestReadingsCache
      (handleMessage ''alcohol/D1'' (level_message 1800)
         (example_device 1 ''D1'' ''online'' (Some 1000) True) 70
         (example_service example_devices [example_reading ''D2'' 100] [] [])) =
     [''D1'' \<mapsto> \<lparr>alcoholLevel = Num 1800, timestamp = 70, alertStatus = ''Moderate Drunk''\<rparr>] \<and>
   batchBuffer
      (handleMessage ''alcohol/D1'' (level_message 1800)
         (example_device 1 ''D1'' ''online'' (Some 1000) True) 70
         (example_service example_devices [example_reading ''D2'' 100] [] [])) =
     [example_reading ''D2'' 100,
      \<lparr>b_deviceId = ''D1'', b_alcoholLevel = Num 1800, b_alertStatus = ''Moderate Drunk'',
       b_timestamp = 70\<rparr>] \<and>
   batchBuffer
      (handleMessage ''alcohol/D1'' (level_message 1800)
         (example_device 1 ''D1'' ''online'' (Some 1000) True) 70
         (example_service example_devices (replicate 99 (example_reading ''D2'' 100)) [] [])) = []"
proof -
  let ?dev = "example_device 1 ''D1'' ''online'' (Some 1000) True"
  let ?one = "example_service example_devices [example_reading ''D2'' 100] [] []"
  let ?full = "example_service example_devices (replicate 99 (example_reading ''D2'' 100)) [] []"
  have d: "decodeMessage (level_message 1800) = Some (Num 1800)"
    by (simp add: orZero_def)
  have v: "orZero (Num 1800) = Num 1800" "calculateAlertStatus (Num 1800) = ''Moderate Drunk''"
    "deviceId ?dev = ''D1''"
    by (simp_all add: orZero_def calculateAlertStatus_def number_ge_def example_device_def)
  have n: "\<not> length (batchBuffer ?one) + 1 \<ge> BATCH_SIZE" "length (batchBuffer ?full) + 1 \<ge> BATCH_SIZE"
    by (simp_all add: BATCH_SIZE_def)
  from broadcast_precedes_enqueue [where message = "level_message 1800" and level = "Num 1800"
      and topic = "''alcohol/D1''" and device = ?dev and now = 70 and s = ?one] d
  obtain rest where
    "trace (handleMessage ''alcohol/D1'' (level_message 1800) ?dev 70 ?one) =
       [CacheSet ''D1'' \<lparr>alcoholLevel = Num 1800, timestamp = 70, alertStatus = ''Moderate Drunk''\<rparr>,
        SensorBroadcast ''D1'' \<lparr>alcoholLevel = Num 1800, timestamp = 70, alertStatus = ''Moderate Drunk''\<rparr>,
        BufferPush \<lparr>b_deviceId = ''D1'', b_alcoholLevel = Num 1800, b_alertStatus = ''Moderate Drunk'',
                    b_timestamp = 70\<rparr>] @ rest"
    and "latestReadingsCache (handleMessage ''alcohol/D1'' (level_message 1800) ?dev 70 ?one) =
       [''D1'' \<mapsto> \<lparr>alcoholLevel = Num 1800, timestamp = 70, alertStatus = ''Moderate Drunk''\<rparr>]"
    and "batchBuffer (handleMessage ''alcohol/D1'' (level_message 1800) ?dev 70 ?one) =
       [example_reading ''D2'' 100,
        \<lparr>b_deviceId = ''D1'', b_alcoholLevel = Num 1800, b_alertStatus = ''Moderate Drunk'',
         b_timestamp = 70\<rparr>]"
    unfolding v using n(1) by auto
  moreover
  from broadcast_precedes_enqueue [where message = "level_message 1800" and level = "Num 1800"
      and topic = "''alcohol/D1''" and device = ?dev and now = 70 and s = ?full] d
  have "batchBuffer (handleMessage ''alcohol/D1'' (level_message 1800) ?dev 70 ?full) = []"
    using n(2) by simp
  ultimately show ?thesis by simp
qed

lemma extract_without_field:
  "\<not> hasRecognizedField p \<Longrightarrow> extractAlcoholLevel p = AsNumber (Num 0)"
  by (auto simp: hasRecognizedField_def extractAlcoholLevel_def split: parsed_json.splits)

lemma decode_None_iff:
  "decodeMessage message = None \<longleftrightarrow>
     (case parsed message of None \<Rightarrow> True
      | Some p \<Rightarrow> extractAlcoholLevel p = ConversionThrows) \<and> rawNumber message = NaN"
  by (auto simp: decodeMessage_def split: option.splits conversion.splits)

text \<open>
  Claim C5 as stated fails on the payload \<^verbatim>\<open>{}\<close>: structured decoding finds none of the
  recognized fields and the text is no number, yet the message is handled as a reading of
  level 0: it is cached, broadcast, enqueued, and the device is written \<^verbatim>\<open>online\<close> with a
  new \<^verbatim>\<open>lastSeen\<close>.
\<close>
theorem json_without_level_field_counterexample:
  "noLevelObtainable \<lparr>parsed = Some (JsonObject []), rawNumber = NaN\<rparr> \<and>
   latestReadingsCache
     (handleMessage ''alcohol/D1'' \<lparr>parsed = Some (JsonObject []), rawNumber = NaN\<rparr>
        (example_device 1 ''D1'' ''offline'' (Some 1000) True) 70
        (example_service [example_device 1 ''D1'' ''offline'' (Some 1000) True] [] [] [])) ''D1'' =
     Some \<lparr>alcoholLevel = Num 0, timestamp = 70, alertStatus = ''Normal''\<rparr> \<and>
   batchBuffer
     (handleMessage ''alcohol/D1'' \<lparr>parsed = Some (JsonObject []), rawNumber = NaN\<rparr>
        (example_device 1 ''D1'' ''offline'' (Some 1000) True) 70
        (example_service [example_device 1 ''D1'' ''offline'' (Some 1000) True] [] [] [])) =
     [\<lparr>b_deviceId = ''D1'', b_alcoholLevel = Num 0, b_alertStatus = ''Normal'', b_timestamp = 70\<rparr>] \<and>
   trace
     (handleMessage ''alcohol/D1'' \<lparr>parsed = Some (JsonObject []), rawNumber = NaN\<rparr>
        (example_device 1 ''D1'' ''offline'' (Some 1000) True) 70
        (example_service [example_device 1 ''D1'' ''offline'' (Some 1000) True] [] [] [])) =
     [CacheSet ''D1'' \<lparr>alcoholLevel = Num 0, timestamp = 70, alertStatus = ''Normal''\<rparr>,
      SensorBroadcast ''D1'' \<lparr>alcoholLevel = Num 0, timestamp = 70, alertStatus = ''Normal''\<rparr>,
      BufferPush \<lparr>b_deviceId = ''D1'', b_alcoholLevel = Num 0, b_alertStatus = ''Normal'',
                  b_timestamp = 70\<rparr>,
      DeviceBroadcast ((example_device 1 ''D1'' ''offline'' (Some 1000) True)
                         \<lparr>status := ''online'', lastSeen := Some 70\<rparr>)] \<and>
   devices (repo
     (handleMessage ''alcohol/D1'' \<lparr>parsed = Some (JsonObject []), rawNumber = NaN\<rparr>
        (example_device 1 ''D1'' ''offline'' (Some 1000) True) 70
        (example_service [example_device 1 ''D1'' ''offline'' (Some 1000) True] [] [] []))) =
     [(example_device 1 ''D1'' ''offline'' (Some 1000) True)
        \<lparr>status := ''online'', lastSeen := Some 70\<rparr>]"
  by (simp add: noLevelObtainable_def hasRecognizedField_def handleMessage_def decodeMessage_def
      extractAlcoholLevel_def orZero_def calculateAlertStatus_def number_ge_def
      example_service_def example_storage_def example_device_def emit_def BATCH_SIZE_def
      on_repo_def updateDevice_def attempt_def applyDeviceUpdates_def broadcastDevice_def Let_def)

text \<open>
  Claim C5, amended. A message on which structured decoding throws, that is
  \<^verbatim>\<open>JSON.parse\<close> rejects the payload or the conversion of a recognized field throws, and
  whose raw payload does not parse as a number, is dropped: the state after
  \<^verbatim>\<open>handleMessage\<close> is the state before it. A payload that parses to a JSON object or
  array with none of the recognized fields among its properties is not dropped: it is
  handled as a reading of level 0 with status \<^verbatim>\<open>Normal\<close>, which is written into the
  cache entry of the device and pushed onto the batch buffer. Nothing is said of a payload
  that parses to another JSON value.
\<close>

theorem undecodable_message_is_dropped:
  "((case parsed message of None \<Rightarrow> True
     | Some p \<Rightarrow> extractAlcoholLevel p = ConversionThrows) \<and> rawNumber message = NaN \<longrightarrow>
      handleMessage topic message device now s = s) \<and>
   (parsed message = Some (JsonObject props) \<and> \<not> hasRecognizedField (JsonObject props) \<and>
    rawNumber message = NaN \<longrightarrow>
      noLevelObtainable message \<and>
      latestReadingsCache (handleMessage topic message device now s) =
        (latestReadingsCache s)(deviceId device \<mapsto>
           \<lparr>alcoholLevel = Num 0, timestamp = now, alertStatus = ''Normal''\<rparr>) \<and>
      BufferPush \<lparr>b_deviceId = deviceId device, b_alcoholLevel = Num 0,
                  b_alertStatus = ''Normal'', b_timestamp = now\<rparr>
        \<in> set (drop (length (trace s)) (trace (handleMessage topic message device now s))))"
proof (intro conjI impI)
  assume "(case parsed message of None \<Rightarrow> True
     | Some p \<Rightarrow> extractAlcoholLevel p = ConversionThrows) \<and> rawNumber message = NaN"
  then have "decodeMessage message = None" by (simp add: decode_None_iff)
  then show "handleMessage topic message device now s = s"
    by (rule handleMessage_dropped)
next
  assume a: "parsed message = Some (JsonObject props) \<and> \<not> hasRecognizedField (JsonObject props) \<and>
    rawNumber message = NaN"
  then show "noLevelObtainable message" by (simp add: noLevelObtainable_def)
  from a have d: "decodeMessage message = Some (Num 0)"
    by (simp add: decodeMessage_def extract_without_field)
  have v: "orZero (Num 0) = Num 0" "calculateAlertStatus (Num 0) = ''Normal''"
    by (simp_all add: orZero_def calculateAlertStatus_def number_ge_def)
  from handleMessage_effects [OF d, of topic device now s]
  show "latestReadingsCache (handleMessage topic message device now s) =
        (latestReadingsCache s)(deviceId device \<mapsto>
           \<lparr>alcoholLevel = Num 0, timestamp = now, alertStatus = ''Normal''\<rparr>)"
    and "BufferPush \<lparr>b_deviceId = deviceId device, b_alcoholLevel = Num 0,
                  b_alertStatus = ''Normal'', b_timestamp = now\<rparr>
        \<in> set (drop (length (trace s)) (trace (handleMessage topic message device now s)))"
    unfolding v by auto
qed

theorem undecodable_message_is_dropped_witness:
  "handleMessage ''alcohol/D1'' text_message (example_device 1 ''D1'' ''online'' (Some 1000) True) 70
     (example_service example_devices [] [] []) = example_service example_devices [] [] [] \<and>
   latestReadingsCache
     (handleMessage ''alcohol/D1'' empty_object_message
        (example_device 1 ''D1'' ''online'' (Some 1000) True) 70
        (example_service example_devices [] [] [])) ''D1'' =
     Some \<lparr>alcoholLevel = Num 0, timestamp = 70, alertStatus = ''Normal''\<rparr>"
proof -
  let ?dev = "example_device 1 ''D1'' ''online'' (Some 1000) True"
  let ?s = "example_service example_devices [] [] []"
  have a: "(case parsed text_message of None \<Rightarrow> True
     | Some p \<Rightarrow> extractAlcoholLevel p = ConversionThrows) \<and> rawNumber text_message = NaN"
    by (simp add: text_message_def)
  have b: "parsed empty_object_message = Some (JsonObject []) \<and>
           \<not> hasRecognizedField (JsonObject []) \<and> rawNumber empty_object_message = NaN"
    by (simp add: empty_object_message_def hasRecognizedField_def)
  have i: "deviceId ?dev = ''D1''" by (simp add: example_device_def)
  from undecodable_message_is_dropped [where message = text_message and topic = "''alcohol/D1''"
      and device = ?dev and now = 70 and s = ?s] a
  have 1: "handleMessage ''alcohol/D1'' text_message ?dev 70 ?s = ?s" by blast
  from undecodable_message_is_dropped [where message = empty_object_message and props = "[]"
      and topic = "''alcohol/D1''" and device = ?dev and now = 70 and s = ?s] b
  have 2: "latestReadingsCache (handleMessage ''alcohol/D1'' empty_object_message ?dev 70 ?s) =
        (latestReadingsCache ?s)(deviceId ?dev \<mapsto>
           \<lparr>alcoholLevel = Num 0, timestamp = 70, alertStatus = ''Normal''\<rparr>)"
    by blast
  from 1 2 i show ?thesis by simp
qed

section \<open>Properties of the protocol retries\<close>

text \<open>
  Claim C4. Against a broker that rejects every connection attempt of a device with
  \<^verbatim>\<open>Invalid header flag bits\<close>, \<^verbatim>\<open>connectToDevice\<close> and \<^verbatim>\<open>retryWithDifferentProtocol\<close>
  make three attempts, end each client, write the device \<^verbatim>\<open>offline\<close> with one offline
  event and leave no timer pending. The run does not stop there, as the claim has it. The
  \<^verbatim>\<open>error\<close> listeners of the ended clients are still attached: when those clients emit
  \<^verbatim>\<open>connack timeout\<close>, the listener of the first client sets a timer that calls
  \<^verbatim>\<open>connectToDevice\<close> again, which makes a fourth attempt and, rejected like the others, a
  fifth; and the listeners of the two retry clients each write the device \<^verbatim>\<open>offline\<close>
  once more and log a further offline event.
\<close>

theorem late_timeout_restarts_the_ladder:
  "(let s = runOccurrences rejected_ladder
              (connectToDevice ladder_device 0 (example_service example_devices [] [] []));
        s' = runOccurrences late_timeouts s
    in connectionAttempts (trace s) =
         [InitialClient ''D1'' 0, RetryClient ''D1'' 4 100, RetryClient ''D1'' 5 2200] \<and>
       timers s = [] \<and>
       InitialClient ''D1'' 0 \<in> ended s \<and>
       map offlineAt (offlineEvents (repo s)) = [4300] \<and>
       connectionAttempts (trace s') =
         [InitialClient ''D1'' 0, RetryClient ''D1'' 4 100, RetryClient ''D1'' 5 2200,
          InitialClient ''D1'' 15000, RetryClient ''D1'' 4 15100] \<and>
       map offlineAt (offlineEvents (repo s')) = [4300, 10100, 12200])"
  by code_simp

end
